theory Spec2Isabelle
  imports Main "HOL-Library.Sublist"
begin

section \<open>Python strings\<close>

text \<open>
  The scripts work on Python \<open>str\<close> values, sequences of Unicode code points. They are
  modelled as HOL strings, lists of 8-bit characters, where the character with code
  \<open>n\<close> stands for the code point \<open>n\<close>: the strings of the model are the Python strings
  whose code points are below 256 (ASCII and Latin-1), which covers URLs and attribute
  values. On these strings the builtins the scripts call are written out below with the
  behaviour CPython has: \<open>str.lower\<close>, \<open>str.find\<close>, \<open>str.startswith\<close>,
  \<open>str.endswith\<close>, \<open>str.strip\<close>, \<open>str.split\<close>, \<open>str.rsplit\<close>, \<open>str.isdigit\<close>,
  \<open>int\<close> and \<open>str\<close> of a number. Strings with code points from 256 on are outside
  the model; among them \<open>str.lower\<close> can change the length of a string (U+0130 becomes
  two characters), which it never does below 256.
\<close>

text \<open>
  \<open>str.lower\<close>: the letters \<open>A\<close> to \<open>Z\<close> and the Latin-1 capitals \<open>0xC0\<close> to \<open>0xDE\<close>
  (without the sign \<open>0xD7\<close>) move up by 32; every other character stays.
\<close>

definition upper_chars :: string where
  "upper_chars =
     ''ABCDEFGHIJKLMNOPQRSTUVWXYZ'' @
     [CHR 0xC0, CHR 0xC1, CHR 0xC2, CHR 0xC3, CHR 0xC4, CHR 0xC5, CHR 0xC6,
      CHR 0xC7, CHR 0xC8, CHR 0xC9, CHR 0xCA, CHR 0xCB, CHR 0xCC, CHR 0xCD,
      CHR 0xCE, CHR 0xCF, CHR 0xD0, CHR 0xD1, CHR 0xD2, CHR 0xD3, CHR 0xD4,
      CHR 0xD5, CHR 0xD6, CHR 0xD8, CHR 0xD9, CHR 0xDA, CHR 0xDB, CHR 0xDC,
      CHR 0xDD, CHR 0xDE]"

definition lower_chars :: string where
  "lower_chars =
     ''abcdefghijklmnopqrstuvwxyz'' @
     [CHR 0xE0, CHR 0xE1, CHR 0xE2, CHR 0xE3, CHR 0xE4, CHR 0xE5, CHR 0xE6,
      CHR 0xE7, CHR 0xE8, CHR 0xE9, CHR 0xEA, CHR 0xEB, CHR 0xEC, CHR 0xED,
      CHR 0xEE, CHR 0xEF, CHR 0xF0, CHR 0xF1, CHR 0xF2, CHR 0xF3, CHR 0xF4,
      CHR 0xF5, CHR 0xF6, CHR 0xF8, CHR 0xF9, CHR 0xFA, CHR 0xFB, CHR 0xFC,
      CHR 0xFD, CHR 0xFE]"

definition py_lower_char :: "char \<Rightarrow> char" where
  "py_lower_char c =
     (case map_of (zip upper_chars lower_chars) c of
        Some d \<Rightarrow> d
      | None \<Rightarrow> c)"

definition py_lower :: "string \<Rightarrow> string" where
  "py_lower s = map py_lower_char s"

text \<open>\<open>s.startswith(p)\<close> and \<open>s.endswith(p)\<close>.\<close>

definition py_startswith :: "string \<Rightarrow> string \<Rightarrow> bool" where
  "py_startswith s p = prefix p s"

definition py_endswith :: "string \<Rightarrow> string \<Rightarrow> bool" where
  "py_endswith s p = suffix p s"

text \<open>
  \<open>s.find(sub)\<close>: the lowest index at which \<open>sub\<close> occurs in \<open>s\<close>; Python's \<open>-1\<close>
  is \<open>None\<close>.
\<close>

fun py_find :: "string \<Rightarrow> string \<Rightarrow> nat option" where
  "py_find [] sub = (if sub = [] then Some 0 else None)"
| "py_find (c # cs) sub =
     (if prefix sub (c # cs) then Some 0 else map_option Suc (py_find cs sub))"

text \<open>
  The characters \<open>str.strip\<close> and \<open>str.split\<close> treat as white space: tab, line feed,
  vertical tab, form feed, carriage return, the four separators \<open>0x1C\<close> to \<open>0x1F\<close>,
  the space, the next-line control \<open>0x85\<close> and the no-break space \<open>0xA0\<close>.
\<close>

definition py_isspace :: "char \<Rightarrow> bool" where
  "py_isspace c \<longleftrightarrow>
     c \<in> set [CHR 0x09, CHR 0x0A, CHR 0x0B, CHR 0x0C, CHR 0x0D,
               CHR 0x1C, CHR 0x1D, CHR 0x1E, CHR 0x1F, CHR '' '', CHR 0x85, CHR 0xA0]"

definition py_strip :: "string \<Rightarrow> string" where
  "py_strip s = rev (dropWhile py_isspace (rev (dropWhile py_isspace s)))"

text \<open>\<open>s.split(sep)\<close> for a one-character separator: never an empty list.\<close>

fun py_split :: "char \<Rightarrow> string \<Rightarrow> string list" where
  "py_split sep [] = [[]]"
| "py_split sep (c # cs) =
     (if c = sep then [] # py_split sep cs
      else (case py_split sep cs of
              [] \<Rightarrow> [[c]]
            | w # ws \<Rightarrow> (c # w) # ws))"

text \<open>
  \<open>s.split()\<close>: the maximal runs of characters that are not white space. The first
  argument holds the run being read, reversed.
\<close>

fun py_split_ws_from :: "string \<Rightarrow> string \<Rightarrow> string list" where
  "py_split_ws_from cur [] = (if cur = [] then [] else [rev cur])"
| "py_split_ws_from cur (c # cs) =
     (if py_isspace c
      then (if cur = [] then py_split_ws_from [] cs else rev cur # py_split_ws_from [] cs)
      else py_split_ws_from (c # cur) cs)"

definition py_split_ws :: "string \<Rightarrow> string list" where
  "py_split_ws s = py_split_ws_from [] s"


definition py_rsplit1_last :: "char \<Rightarrow> string \<Rightarrow> string" where
  "py_rsplit1_last sep s = rev (takeWhile (\<lambda>c. c \<noteq> sep) (rev s))"

text \<open>
  The decimal digits \<open>0\<close> to \<open>9\<close>, which are the characters that \<open>int\<close> reads as digits
  and that \<open>\d\<close> matches. \<open>str.isdigit\<close> accepts three more characters, the superscripts
  \<open>0xB2\<close>, \<open>0xB3\<close> and \<open>0xB9\<close>, which \<open>int\<close> refuses.
\<close>

definition digit_of :: "char \<Rightarrow> nat option" where
  "digit_of c = map_of (zip ''0123456789'' [0, 1, 2, 3, 4, 5, 6, 7, 8, 9]) c"

definition py_isdigit :: "string \<Rightarrow> bool" where
  "py_isdigit s \<longleftrightarrow>
     s \<noteq> [] \<and>
     list_all (\<lambda>c. digit_of c \<noteq> None \<or> c \<in> set [CHR 0xB2, CHR 0xB3, CHR 0xB9]) s"

text \<open>
  \<open>int(s)\<close> in base ten. White space is skipped at both ends, where \<open>int\<close> has a set
  of its own: tab to carriage return, the space, \<open>0x85\<close> and \<open>0xA0\<close>, but not the
  separators \<open>0x1C\<close> to \<open>0x1F\<close>. A sign may lead; the digits may be grouped by single
  underscores. CPython refuses a text of more than \<open>int_max_str_digits\<close> digits (4300
  unless reconfigured). Every refusal is a \<open>ValueError\<close>, here \<open>None\<close>.
\<close>

definition int_isspace :: "char \<Rightarrow> bool" where
  "int_isspace c \<longleftrightarrow>
     c \<in> set [CHR 0x09, CHR 0x0A, CHR 0x0B, CHR 0x0C, CHR 0x0D, CHR '' '', CHR 0x85, CHR 0xA0]"

definition int_strip :: "string \<Rightarrow> string" where
  "int_strip s = rev (dropWhile int_isspace (rev (dropWhile int_isspace s)))"

definition int_max_str_digits :: nat where
  "int_max_str_digits = 4300"

fun int_digits :: "nat \<Rightarrow> string \<Rightarrow> nat option" where
  "int_digits acc [] = None"
| "int_digits acc (c # cs) =
     (case digit_of c of
        None \<Rightarrow> None
      | Some d \<Rightarrow>
          (case cs of
             [] \<Rightarrow> Some (10 * acc + d)
           | u # cs' \<Rightarrow>
               if u = CHR ''_'' then int_digits (10 * acc + d) cs'
               else int_digits (10 * acc + d) cs))"

definition int_unsigned :: "string \<Rightarrow> nat option" where
  "int_unsigned s =
     (if int_max_str_digits < length (filter (\<lambda>c. digit_of c \<noteq> None) s) then None
      else int_digits 0 s)"

definition py_int :: "string \<Rightarrow> int option" where
  "py_int s =
     (case int_strip s of
        [] \<Rightarrow> None
      | c # cs \<Rightarrow>
          if c = CHR ''-'' then map_option (\<lambda>n. - int n) (int_unsigned cs)
          else if c = CHR ''+'' then map_option int (int_unsigned cs)
          else map_option int (int_unsigned (c # cs)))"

section \<open>URL helpers\<close>

text \<open>
  \<open>normalize\<close> of \<open>extraction_dynamic.py\<close> (the same body is \<open>normalize\<close> in
  \<open>extractionv3.py\<close> and \<open>extraction_v2.py\<close>, and \<open>normalize_url\<close> in \<open>extraction.py\<close>):
  a protocol-relative URL gets the scheme \<open>https:\<close>, every other text is returned as it is.
\<close>

definition normalize_py :: "string \<Rightarrow> string" where
  "normalize_py url = (if py_startswith url ''//'' then ''https:'' @ url else url)"

definition normalize_url :: "string \<Rightarrow> string" where
  "normalize_url raw = (if py_startswith raw ''//'' then ''https:'' @ raw else raw)"

text \<open>
  \<open>strip_to_jpg\<close> of \<open>src/extraction_dynamic.py\<close>:
  \<^verbatim>\<open>idx = url.lower().find('.jpg'); return url[:idx+4] if idx != -1 else url\<close>
\<close>

definition strip_to_jpg :: "string \<Rightarrow> string" where
  "strip_to_jpg url =
     (case py_find (py_lower url) ''.jpg'' of
        Some idx \<Rightarrow> take (idx + 4) url
      | None \<Rightarrow> url)"

text \<open>
  \<open>strip_to_jpg\<close> of \<open>src/ExtractionEngine/extraction_dynamic.py\<close>, which also knows
  \<open>.png\<close>: the smaller of the two indices that were found.
\<close>

definition strip_to_jpg_engine :: "string \<Rightarrow> string" where
  "strip_to_jpg_engine url =
     (let url_lower = py_lower url;
          idx_jpg = py_find url_lower ''.jpg'';
          idx_png = py_find url_lower ''.png'';
          idxs = List.map_filter id [idx_jpg, idx_png]
      in if idxs \<noteq> [] then take (Min (set idxs) + 4) url else url)"

text \<open>
  \<open>base_jpg\<close> of \<open>extraction.py\<close>: \<open>re.search(r"\.jpg", url)\<close> finds the first literal
  \<open>.jpg\<close> (the pattern is case-sensitive), and the URL is cut at the end of the match.
\<close>

definition base_jpg :: "string \<Rightarrow> string" where
  "base_jpg url =
     (case py_find url ''.jpg'' of
        None \<Rightarrow> url
      | Some i \<Rightarrow> take (i + 4) url)"

section \<open>Parsed documents\<close>

text \<open>
  Every script hands the page to BeautifulSoup and then only asks three questions: the
  first element with a given name and id (\<open>soup.find\<close>), the \<open>img\<close> descendants of an
  element in document order (\<open>find_all("img")\<close>), and the value of an attribute
  (\<open>tag.get(name)\<close>, \<open>None\<close> when the attribute is absent). A parsed document is
  therefore the list of its elements in document order, each with its name, its
  attributes and the attributes of its \<open>img\<close> descendants.
\<close>

type_synonym attrs = "string \<rightharpoonup> string"

record element =
  el_name :: string
  el_attrs :: attrs
  el_imgs :: "attrs list"

type_synonym soup = "element list"

text \<open>\<open>soup.find(tag, id=cid)\<close> and \<open>soup.find(id=cid)\<close>.\<close>

definition soup_find_tag_id :: "soup \<Rightarrow> string \<Rightarrow> string \<Rightarrow> element option" where
  "soup_find_tag_id html container_tag container_id =
     find (\<lambda>e. el_name e = container_tag \<and> el_attrs e ''id'' = Some container_id) html"

definition soup_find_id :: "soup \<Rightarrow> string \<Rightarrow> element option" where
  "soup_find_id html container_id = find (\<lambda>e. el_attrs e ''id'' = Some container_id) html"


definition usable :: "string option \<Rightarrow> bool" where
  "usable v = (case v of None \<Rightarrow> False | Some s \<Rightarrow> s \<noteq> [] \<and> \<not> py_startswith s ''data:'')"

section \<open>\<open>extract_image_srcs\<close> of \<open>src/extraction_dynamic.py\<close>\<close>

text \<open>
  Lines 35 to 48: the candidates of one \<open>img\<close>. A usable \<open>d-src\<close> comes first, followed
  by \<open>src\<close> when both are asked for, usable and different; otherwise a usable \<open>src\<close>.
\<close>

definition img_candidates :: "bool \<Rightarrow> attrs \<Rightarrow> string list" where
  "img_candidates include_both img =
     (let raw_src = img ''src''; d_src = img ''d-src'' in
      if usable d_src
      then (case d_src of
              None \<Rightarrow> []
            | Some d \<Rightarrow>
                d # (if include_both \<and> usable raw_src \<and> raw_src \<noteq> d_src
                     then (case raw_src of None \<Rightarrow> [] | Some r \<Rightarrow> [r])
                     else []))
      else (if usable raw_src
            then (case raw_src of None \<Rightarrow> [] | Some r \<Rightarrow> [r])
            else []))"

text \<open>
  Lines 50 to 55: one candidate is normalised and cut to its key, and the key is
  appended when it has not been seen. The state is the pair of \<open>collected\<close> and
  \<open>seen\<close>.
\<close>

definition collect_candidate ::
  "string list \<times> string set \<Rightarrow> string \<Rightarrow> string list \<times> string set" where
  "collect_candidate st c =
     (case st of (collected, seen) \<Rightarrow>
        let norm = normalize_py c; base = strip_to_jpg norm in
        if base \<notin> seen then (collected @ [base], insert base seen) else (collected, seen))"

definition extract_image_srcs :: "soup \<Rightarrow> string \<Rightarrow> string \<Rightarrow> bool \<Rightarrow> string list" where
  "extract_image_srcs html container_tag container_id include_both =
     (case soup_find_tag_id html container_tag container_id of
        None \<Rightarrow> []
      | Some container \<Rightarrow>
          fst (foldl (\<lambda>st img. foldl collect_candidate st (img_candidates include_both img))
                 ([], {}) (el_imgs container)))"

section \<open>\<open>parse_srcset\<close> and \<open>choose_best_variant\<close> of \<open>extractionv3.py\<close>\<close>





section \<open>\<open>extraction.py\<close>: widths, the choice for one image, the scan\<close>

text \<open>
  Exceptions are values. \<open>ValueError\<close> is what \<open>int\<close> raises and what line 220 raises
  for a content type that is not an image; \<open>IndexError\<close> is an index out of range;
  \<open>HTTPError\<close> is what \<open>raise_for_status\<close> raises; \<open>RequestException\<close> is a failed
  request; \<open>OSError\<close> is a failed write.
\<close>

datatype py_error = ValueError | IndexError | HTTPError int | RequestException | OSError

text \<open>
  \<open>re.search(r"[?&]width=(\d+)", url)\<close>: the leftmost \<open>?\<close> or \<open>&\<close> that is followed by
  \<open>width=\<close> and at least one digit; the group is the longest run of digits there.
\<close>

fun search_width :: "string \<Rightarrow> string option" where
  "search_width [] = None"
| "search_width (c # cs) =
     (if (c = CHR ''?'' \<or> c = CHR ''&'') \<and> prefix ''width='' cs
         \<and> takeWhile (\<lambda>d. digit_of d \<noteq> None) (drop 6 cs) \<noteq> []
      then Some (takeWhile (\<lambda>d. digit_of d \<noteq> None) (drop 6 cs))
      else search_width cs)"

text \<open>\<open>int(s)\<close> where no handler catches its \<open>ValueError\<close>.\<close>

definition int_or_raise :: "string \<Rightarrow> py_error + int" where
  "int_or_raise s = (case py_int s of None \<Rightarrow> Inl ValueError | Some n \<Rightarrow> Inr n)"

text \<open>
  \<open>parse_width\<close>, lines 25 to 32: a descriptor of digits and a final \<open>w\<close>, else the
  \<open>width=\<close> parameter of the URL, else 0.
\<close>

definition parse_width :: "string \<Rightarrow> string option \<Rightarrow> py_error + int" where
  "parse_width url descriptor =
     (case (case descriptor of
              None \<Rightarrow> None
            | Some d \<Rightarrow> if d \<noteq> [] \<and> py_endswith d ''w'' \<and> py_isdigit (butlast d)
                        then Some (butlast d) else None)
      of Some digits \<Rightarrow> int_or_raise digits
       | None \<Rightarrow>
           (case search_width url of
              Some q \<Rightarrow> int_or_raise q
            | None \<Rightarrow> Inr 0))"

text \<open>
  The body of the loop over \<open>srcset.split(",")\<close> (lines 109 to 119 in
  \<open>extract_all_image_urls\<close>, again lines 167 to 177 in \<open>process_html\<close>). Lines 110 to
  116 make a candidate of one part: its first field, normalised, with the width that
  \<open>parse_width\<close> gives for the URL and the second field; \<open>None\<close> is the \<open>continue\<close> for an
  empty part. Lines 117 to 119 compare: the state is \<open>(chosen_full, max_w)\<close>, and a
  candidate replaces the choice only when its width is strictly greater.
\<close>

definition srcset_candidate :: "string \<Rightarrow> py_error + (string \<times> int) option" where
  "srcset_candidate part0 =
     (let part = py_strip part0 in
      if part = [] then Inr None
      else (case py_split_ws part of
              [] \<Rightarrow> Inl IndexError
            | p # ps \<Rightarrow>
                let candidate_url = normalize_url p;
                    descriptor = (case ps of [] \<Rightarrow> None | d # _ \<Rightarrow> Some d)
                in (case parse_width candidate_url descriptor of
                      Inl e \<Rightarrow> Inl e
                    | Inr w \<Rightarrow> Inr (Some (candidate_url, w)))))"

definition keep_wider :: "string option \<times> int \<Rightarrow> string \<times> int \<Rightarrow> string option \<times> int" where
  "keep_wider st cand =
     (case st of (chosen_full, max_w) \<Rightarrow>
        (case cand of (candidate_url, w) \<Rightarrow>
           if w > max_w then (Some candidate_url, w) else (chosen_full, max_w)))"

definition srcset_step ::
  "string option \<times> int \<Rightarrow> string \<Rightarrow> py_error + (string option \<times> int)" where
  "srcset_step st part0 =
     (case srcset_candidate part0 of
        Inl e \<Rightarrow> Inl e
      | Inr None \<Rightarrow> Inr st
      | Inr (Some cand) \<Rightarrow> Inr (keep_wider st cand))"

text \<open>A loop whose body may raise: the first exception ends it.\<close>

fun fold_raise :: "('s \<Rightarrow> 'a \<Rightarrow> py_error + 's) \<Rightarrow> 's \<Rightarrow> 'a list \<Rightarrow> py_error + 's" where
  "fold_raise f s [] = Inr s"
| "fold_raise f s (x # xs) =
     (case f s x of Inl e \<Rightarrow> Inl e | Inr s' \<Rightarrow> fold_raise f s' xs)"

text \<open>
  Lines 105 to 123 (and 163 to 181): the choice for one \<open>img\<close>. The widest entry of
  \<open>srcset\<close>, and the normalised \<open>src\<close> when \<open>srcset\<close> gave nothing. The second component
  is \<open>max_w\<close>, still \<open>-1\<close> when the choice came from \<open>src\<close>.
\<close>

definition choose_full :: "attrs \<Rightarrow> py_error + (string option \<times> int)" where
  "choose_full img =
     (case (case img ''srcset'' of
              None \<Rightarrow> Inr (None, - 1)
            | Some srcset \<Rightarrow>
                if srcset = [] then Inr (None, - 1)
                else fold_raise srcset_step (None, - 1) (py_split CHR '','' srcset))
      of Inl e \<Rightarrow> Inl e
       | Inr (chosen_full, max_w) \<Rightarrow>
           (case chosen_full of
              Some c \<Rightarrow> Inr (Some c, max_w)
            | None \<Rightarrow>
                (case img ''src'' of
                   None \<Rightarrow> Inr (None, max_w)
                 | Some src \<Rightarrow>
                     if src = [] then Inr (None, max_w)
                     else Inr (Some (normalize_url src), max_w))))"

text \<open>
  \<open>extract_all_image_urls\<close>, lines 98 to 126, on the element \<open>soup.find\<close> returned: one
  key for every \<open>img\<close> that has a choice, duplicates kept.
\<close>

definition extract_all_image_urls :: "soup \<Rightarrow> py_error + string list" where
  "extract_all_image_urls html =
     (case soup_find_id html ''Product-Slider'' of
        None \<Rightarrow> Inr []
      | Some product_slider \<Rightarrow>
          fold_raise
            (\<lambda>results img.
               case choose_full img of
                 Inl e \<Rightarrow> Inl e
               | Inr (chosen_full, max_w) \<Rightarrow>
                   (case chosen_full of
                      None \<Rightarrow> Inr results
                    | Some c \<Rightarrow> if c = [] then Inr results else Inr (results @ [base_jpg c])))
            [] (el_imgs product_slider))"

section \<open>\<open>extraction.py\<close>: the audit log\<close>

text \<open>
  \<open>log_event\<close> appends one line to the log file. A line is kept as its fields; the
  time stamp is left out (the clock is not part of the model), and an absent field is
  the empty text, as \<open>image_base or ""\<close> makes it. The note is a text, or the message
  of an exception, whose wording is the library's and is kept as the exception, or the
  listing of the download directory, whose content is not modelled.
\<close>

datatype log_note = Text string | Message py_error | Listing

record log_line =
  ev_stage :: string
  ev_page_url :: string
  ev_image_base :: string
  ev_image_full :: string
  ev_status :: string
  ev_note :: log_note

definition log_event ::
  "log_line list \<Rightarrow> string \<Rightarrow> string \<Rightarrow> string \<Rightarrow> string \<Rightarrow> string \<Rightarrow> log_note \<Rightarrow> log_line list" where
  "log_event lg stage page_url image_base image_full status note =
     lg @ [\<lparr>ev_stage = stage, ev_page_url = page_url, ev_image_base = image_base,
            ev_image_full = image_full, ev_status = status, ev_note = note\<rparr>]"

text \<open>\<open>str(n)\<close> for an integer.\<close>

fun str_nat :: "nat \<Rightarrow> string" where
  "str_nat n =
     (if n < 10 then [''0123456789'' ! n]
      else str_nat (n div 10) @ [''0123456789'' ! (n mod 10)])"

declare str_nat.simps [simp del]

definition py_str :: "int \<Rightarrow> string" where
  "py_str i = (if i < 0 then CHR ''-'' # str_nat (nat (- i)) else str_nat (nat i))"

section \<open>\<open>extraction.py\<close>: \<open>process_html\<close>\<close>

text \<open>
  The state of the scan, lines 159 to 161, and the log. Lines 182 to 189 fold one
  choice into it: a key that was not seen is appended, its full URL is stored, and an
  \<open>image_selected\<close> line is written.
\<close>

record scan_state =
  unique_bases :: "string list"
  seen :: "string set"
  base_to_full :: "string \<rightharpoonup> string"
  scan_log :: "log_line list"

definition width_note :: "int \<Rightarrow> string" where
  "width_note max_w = ''width='' @ (if max_w \<noteq> - 1 then py_str max_w else ''src'')"

definition select_image :: "string \<Rightarrow> scan_state \<Rightarrow> string option \<times> int \<Rightarrow> scan_state" where
  "select_image page_url st choice =
     (case choice of (chosen_full, max_w) \<Rightarrow>
        (case chosen_full of
           None \<Rightarrow> st
         | Some full \<Rightarrow>
             if full = [] then st
             else let base = base_jpg full in
               if base \<notin> seen st
               then st\<lparr>unique_bases := unique_bases st @ [base],
                       seen := insert base (seen st),
                       base_to_full := (base_to_full st)(base \<mapsto> full),
                       scan_log := log_event (scan_log st) ''image_selected'' page_url base full
                                     ''selected'' (Text (width_note max_w))\<rparr>
               else st))"

text \<open>
  The loop of line 162. An exception leaves the loop and \<open>process_html\<close>; the lines
  already written stay in the log.
\<close>

fun scan_imgs :: "string \<Rightarrow> scan_state \<Rightarrow> attrs list \<Rightarrow> scan_state \<times> py_error option" where
  "scan_imgs page_url st [] = (st, None)"
| "scan_imgs page_url st (img # imgs) =
     (case choose_full img of
        Inl e \<Rightarrow> (st, Some e)
      | Inr choice \<Rightarrow> scan_imgs page_url (select_image page_url st choice) imgs)"

text \<open>
  The download of lines 197 to 233 talks to the network and writes files. A response
  is its status code, its headers and its body. The network answers a request with
  a response or an exception; the answer may depend on how many requests came before.
  The world records what the script did: the log, the URLs it requested, in order,
  and the files it wrote. What the file system allows is a parameter, written
  \<open>writable\<close>: it tells of every path whether the script can create it and write to it.
  It decides the write of an image file (line 223, inside the handler), the creation
  and listing of the download directory (lines 198 and 232, outside the handler) and
  the append to the log file \<open>output_logging.txt\<close> (\<open>write_log_line\<close>, whose \<open>OSError\<close>
  nothing catches). The parameter does not change during a call: a log file that took
  the first line takes the later ones, and a directory that could be created can be
  listed.
\<close>

definition output_log :: string where
  "output_log = ''output_logging.txt''"

record response =
  status_code :: int
  headers :: attrs
  content :: string

type_synonym network = "nat \<Rightarrow> string \<Rightarrow> py_error + response"

record world =
  w_log :: "log_line list"
  w_requests :: "string list"
  w_files :: "(string \<times> string) list"

definition requests_get :: "network \<Rightarrow> world \<Rightarrow> string \<Rightarrow> world \<times> (py_error + response)" where
  "requests_get net w url =
     (w\<lparr>w_requests := w_requests w @ [url]\<rparr>, net (length (w_requests w)) url)"

text \<open>\<open>resp.headers.get("Content-Type", "")\<close> and \<open>resp.raise_for_status()\<close>.\<close>

definition content_type :: "response \<Rightarrow> string" where
  "content_type resp = (case headers resp ''Content-Type'' of None \<Rightarrow> [] | Some t \<Rightarrow> t)"

definition raise_for_status :: "response \<Rightarrow> py_error option" where
  "raise_for_status resp =
     (if 400 \<le> status_code resp \<and> status_code resp < 600
      then Some (HTTPError (status_code resp)) else None)"

text \<open>
  The expression of lines 202 and 215:
  \<^verbatim>\<open>u if u.startswith("http") else ("https:" + u if u.startswith("//") else u)\<close>
\<close>

definition with_protocol :: "string \<Rightarrow> string" where
  "with_protocol u =
     (if py_startswith u ''http'' then u
      else if py_startswith u ''//'' then ''https:'' @ u else u)"

text \<open>The test of line 209 on the first response.\<close>

definition fallback_triggered :: "response \<Rightarrow> bool" where
  "fallback_triggered resp \<longleftrightarrow>
     status_code resp = 404 \<or> \<not> py_startswith (content_type resp) ''image''
     \<or> length (content resp) < 500"

text \<open>
  Lines 206 to 217: the request for the base URL and, when line 209 asks for it and
  the stored full URL differs from the base URL, one request for the full URL. The
  response that is kept is the last one received.
\<close>

definition fetch_with_fallback ::
  "network \<Rightarrow> world \<Rightarrow> string \<Rightarrow> string \<Rightarrow> world \<times> (py_error + response)" where
  "fetch_with_fallback net w base_url original_full =
     (case requests_get net w base_url of
        (w1, Inl e) \<Rightarrow> (w1, Inl e)
      | (w1, Inr resp) \<Rightarrow>
          if fallback_triggered resp
          then (let alt_url = (if original_full \<noteq> base_url then Some original_full else None)
                in (case alt_url of
                      None \<Rightarrow> (w1, Inr resp)
                    | Some a \<Rightarrow>
                        if a = [] then (w1, Inr resp)
                        else requests_get net w1 (with_protocol a)))
          else (w1, Inr resp))"

text \<open>\<open>os.path.join(download_dir, filename)\<close> on a POSIX system, for a relative file name.\<close>

definition os_path_join :: "string \<Rightarrow> string \<Rightarrow> string" where
  "os_path_join d f = (if d = [] \<or> py_endswith d ''/'' then d @ f else d @ ''/'' @ f)"

text \<open>
  Lines 218 to 227: the checks on the response that was kept, the write, and the
  \<open>download_success\<close> line.
\<close>

definition save_image ::
  "(string \<Rightarrow> bool) \<Rightarrow> world \<Rightarrow> string \<Rightarrow> string \<Rightarrow> nat \<Rightarrow> string \<Rightarrow> string \<Rightarrow> response
     \<Rightarrow> world \<times> py_error option" where
  "save_image writable w page_url download_dir i b base_url resp =
     (case raise_for_status resp of
        Some e \<Rightarrow> (w, Some e)
      | None \<Rightarrow>
          if \<not> py_startswith (content_type resp) ''image'' then (w, Some ValueError)
          else let filename = str_nat i @ ''_'' @ py_rsplit1_last CHR ''/'' b;
                   path = os_path_join download_dir filename
               in if \<not> writable path then (w, Some OSError)
                  else (w\<lparr>w_files := w_files w @ [(path, content resp)],
                           w_log := log_event (w_log w) ''download_success'' page_url b base_url
                                      (py_str (status_code resp))
                                      (Text (''size='' @ str_nat (length (content resp))))\<rparr>,
                        None))"

text \<open>
  The body of the loop of line 200, with its handler: any exception becomes a
  \<open>download_failure\<close> line and the loop goes on.
\<close>

definition download_image ::
  "network \<Rightarrow> (string \<Rightarrow> bool) \<Rightarrow> string \<Rightarrow> string \<Rightarrow> (string \<rightharpoonup> string) \<Rightarrow> world
     \<Rightarrow> nat \<times> string \<Rightarrow> world" where
  "download_image net writable page_url download_dir b2f w ib =
     (case ib of (i, b) \<Rightarrow>
        let base_url = with_protocol b;
            original_full = (case b2f b of None \<Rightarrow> base_url | Some f \<Rightarrow> f)
        in (case (case fetch_with_fallback net w base_url original_full of
                    (w1, Inl e) \<Rightarrow> (w1, Some e)
                  | (w1, Inr resp) \<Rightarrow>
                      save_image writable w1 page_url download_dir i b base_url resp)
            of (w2, None) \<Rightarrow> w2
             | (w2, Some e) \<Rightarrow>
                 w2\<lparr>w_log := log_event (w_log w2) ''download_failure'' page_url b base_url
                                ''error'' (Message e)\<rparr>))"

text \<open>
  \<open>process_html\<close>, lines 148 to 234. The parameter \<open>debug\<close> only switches prints on
  and is left out, as are the prints. The result is the world after the call and
  either the exception that left the function or the list it returned. The function
  is left by an exception when the log file cannot be written (the first
  \<open>log_event\<close>, line 153 or 157, raises), when \<open>int\<close> raises in the scan, and when the
  download directory cannot be created (\<open>os.makedirs\<close>, line 198, which raises
  \<open>FileNotFoundError\<close> for the empty path whatever the file system allows).
\<close>

definition process_html ::
  "network \<Rightarrow> (string \<Rightarrow> bool) \<Rightarrow> world \<Rightarrow> soup \<Rightarrow> string \<Rightarrow> bool \<Rightarrow> string
     \<Rightarrow> world \<times> (py_error + string list)" where
  "process_html net writable w html page_url download download_dir =
     (if \<not> writable output_log then (w, Inl OSError)
      else
       (case soup_find_id html ''Product-Slider'' of
          None \<Rightarrow>
            (w\<lparr>w_log := log_event (w_log w) ''slider_missing'' page_url [] [] ''no_slider''
                          (Text ''Product-Slider element not found'')\<rparr>,
             Inr [])
        | Some slider \<Rightarrow>
            (case scan_imgs page_url
                    \<lparr>unique_bases = [], seen = {}, base_to_full = Map.empty,
                     scan_log = log_event (w_log w) ''slider_found'' page_url [] [] ''ok''
                                  (Text [])\<rparr>
                    (el_imgs slider)
             of (st, Some e) \<Rightarrow> (w\<lparr>w_log := scan_log st\<rparr>, Inl e)
              | (st, None) \<Rightarrow>
                  let w1 = w\<lparr>w_log := log_event (scan_log st) ''extraction_complete'' page_url
                                         [] [] ''count''
                                         (Text (''images='' @ str_nat (length (unique_bases st))))\<rparr>
                  in if download
                     then (if download_dir = [] \<or> \<not> writable download_dir then (w1, Inl OSError)
                           else let w2 = foldl (download_image net writable page_url download_dir
                                                  (base_to_full st))
                                           w1 (enumerate 1 (unique_bases st))
                                in (w2\<lparr>w_log := log_event (w_log w2) ''download_directory_scan''
                                                   page_url [] [] ''files'' Listing\<rparr>,
                                    Inr (unique_bases st)))
                     else (w1, Inr (unique_bases st)))))"

section \<open>The script \<open>src/extraction.py\<close>\<close>

text \<open>
  Lines 13 to 29 collect \<open>image_urls\<close>: for every \<open>img\<close> its \<open>src\<close>, then the first field
  of every part of its \<open>srcset\<close>, each with \<open>https:\<close> put before a leading \<open>//\<close>.
\<close>

definition first_field :: "string \<Rightarrow> string" where
  "first_field part = takeWhile (\<lambda>c. c \<noteq> CHR '' '') (py_strip part)"

definition img_urls :: "attrs \<Rightarrow> string list" where
  "img_urls img =
     (case img ''src'' of
        None \<Rightarrow> []
      | Some src \<Rightarrow> if src = [] then [] else [normalize_py src])
     @ (case img ''srcset'' of
          None \<Rightarrow> []
        | Some srcset \<Rightarrow>
            if srcset = [] then []
            else map (\<lambda>part. normalize_py (first_field part)) (py_split CHR '','' srcset))"

definition image_urls :: "soup \<Rightarrow> string list" where
  "image_urls html =
     (case soup_find_id html ''Product-Slider'' of
        None \<Rightarrow> []
      | Some product_slider \<Rightarrow> concat (map img_urls (el_imgs product_slider)))"

text \<open>
  Lines 36 to 43 run \<open>for idx, img_url in enumerate(set(image_urls))\<close> and save each
  URL as \<open>image_{idx+1}.jpg\<close>. The order in which a Python set of strings is iterated
  follows the hash values of the strings, which CPython salts anew for every process.
  So the order is a parameter: any list without repetition that holds exactly the
  members of the set. \<open>download_plan\<close> is which URL is saved under which name.
\<close>

definition set_iteration :: "string list \<Rightarrow> string list \<Rightarrow> bool" where
  "set_iteration urls order \<longleftrightarrow> distinct order \<and> set order = set urls"

definition download_plan :: "string list \<Rightarrow> (string \<times> string) list" where
  "download_plan order =
     map (\<lambda>(idx, img_url). (''downloaded_images/image_'' @ str_nat (idx + 1) @ ''.jpg'', img_url))
       (enumerate 0 order)"

section \<open>Notions used to state the properties\<close>

text \<open>
  The position at which a key is first seen in a scan, and the keys the two resolvers
  see, in the order of the scan: for \<open>extract_image_srcs\<close> the key of every candidate of
  every \<open>img\<close>; for \<open>process_html\<close> the key of the choice of every \<open>img\<close> that has one.
\<close>

definition first_index :: "'a list \<Rightarrow> 'a \<Rightarrow> nat" where
  "first_index ks k = length (takeWhile (\<lambda>x. x \<noteq> k) ks)"

definition candidate_keys :: "soup \<Rightarrow> string \<Rightarrow> string \<Rightarrow> bool \<Rightarrow> string list" where
  "candidate_keys html container_tag container_id include_both =
     (case soup_find_tag_id html container_tag container_id of
        None \<Rightarrow> []
      | Some container \<Rightarrow>
          map (\<lambda>c. strip_to_jpg (normalize_py c))
            (concat (map (img_candidates include_both) (el_imgs container))))"

definition choice_key :: "attrs \<Rightarrow> string list" where
  "choice_key img =
     (case choose_full img of
        Inl e \<Rightarrow> []
      | Inr (chosen_full, max_w) \<Rightarrow>
          (case chosen_full of
             None \<Rightarrow> []
           | Some c \<Rightarrow> if c = [] then [] else [base_jpg c]))"

definition slider_keys :: "soup \<Rightarrow> string list" where
  "slider_keys html =
     (case soup_find_id html ''Product-Slider'' of
        None \<Rightarrow> []
      | Some slider \<Rightarrow> concat (map choice_key (el_imgs slider)))"

text \<open>
  \<open>extract_image_srcs\<close> reads its arguments and returns a list. It writes no log line,
  makes no request and writes no file: with the world made explicit, a call leaves the
  world as it was.
\<close>

definition run_extract_image_srcs ::
  "world \<Rightarrow> soup \<Rightarrow> string \<Rightarrow> string \<Rightarrow> bool \<Rightarrow> world \<times> string list" where
  "run_extract_image_srcs w html container_tag container_id include_both =
     (w, extract_image_srcs html container_tag container_id include_both)"





text \<open>
  Both resolvers treat a key in the same way: it is appended to the list and added to
  the set when the set does not hold it yet.
\<close>

definition keep_first :: "'a list \<times> 'a set \<Rightarrow> 'a \<Rightarrow> 'a list \<times> 'a set" where
  "keep_first st k = (case st of (collected, sn) \<Rightarrow>
     if k \<notin> sn then (collected @ [k], insert k sn) else (collected, sn))"

text \<open>
  The document of the end-to-end scenario: a gallery container with three \<open>img\<close>
  elements, the first with only a \<open>srcset\<close>, the second with a protocol-relative \<open>src\<close>
  that carries a query, the third with only a data URI as \<open>src\<close>.
\<close>

definition gallery_scenario :: soup where
  "gallery_scenario =
     [\<lparr>el_name = ''product-slider'', el_attrs = [''id'' \<mapsto> ''Product-Slider''],
       el_imgs = [[''srcset'' \<mapsto> ''p1-200.jpg 200w, p1-800.jpg 800w''],
                  [''src'' \<mapsto> ''//cdn/p2.png?v=3''],
                  [''src'' \<mapsto> ''data:image/png;base64,AAAA'']]\<rparr>]"

section \<open>Facts about the string functions\<close>

lemma py_find_Some_iff:
  "py_find s sub = Some i \<longleftrightarrow>
     prefix sub (drop i s) \<and> i \<le> length s \<and> (\<forall>j<i. \<not> prefix sub (drop j s))"
proof (induction s arbitrary: i)
  case Nil
  then show ?case by auto
next
  case (Cons c cs)
  show ?case
  proof (cases "prefix sub (c # cs)")
    case True
    then show ?thesis by (cases i) auto
  next
    case False
    show ?thesis
    proof (cases i)
      case 0
      with False show ?thesis by simp
    next
      case (Suc k)
      have "(\<forall>j<Suc k. \<not> prefix sub (drop j (c # cs))) \<longleftrightarrow> (\<forall>j<k. \<not> prefix sub (drop j cs))"
        using False by (auto simp: less_Suc_eq_0_disj)
      with False Suc Cons.IH [of k] show ?thesis by auto
    qed
  qed
qed

lemma py_find_None_iff:
  "py_find s sub = None \<longleftrightarrow> (\<forall>j\<le>length s. \<not> prefix sub (drop j s))"
proof (induction s)
  case Nil
  then show ?case by auto
next
  case (Cons c cs)
  have "(\<forall>j\<le>Suc (length cs). \<not> prefix sub (drop j (c # cs))) \<longleftrightarrow>
        \<not> prefix sub (c # cs) \<and> (\<forall>j\<le>length cs. \<not> prefix sub (drop j cs))"
  proof -
    have "(\<forall>j\<le>Suc (length cs). \<not> prefix sub (drop j (c # cs))) \<longleftrightarrow>
          (\<forall>j<Suc (Suc (length cs)). \<not> prefix sub (drop j (c # cs)))"
      by (simp add: less_Suc_eq_le)
    also have "\<dots> \<longleftrightarrow> \<not> prefix sub (c # cs) \<and> (\<forall>j<Suc (length cs). \<not> prefix sub (drop j cs))"
      by (subst All_less_Suc2) simp
    finally show ?thesis by (simp add: less_Suc_eq_le)
  qed
  with Cons show ?case by auto
qed

lemma prefix_take_iff: "prefix sub (take n s) \<longleftrightarrow> prefix sub s \<and> length sub \<le> n"
proof
  assume a: "prefix sub (take n s)"
  then have "prefix sub s" using take_is_prefix prefix_order.trans by blast
  moreover from a have "length sub \<le> length (take n s)" by (rule prefix_length_le)
  ultimately show "prefix sub s \<and> length sub \<le> n" by simp
next
  assume a: "prefix sub s \<and> length sub \<le> n"
  then obtain r where s: "s = sub @ r" by (auto simp: prefix_def)
  with a show "prefix sub (take n s)" by simp
qed

lemma py_find_take:
  "sub \<noteq> [] \<Longrightarrow>
   py_find (take n s) sub =
     (case py_find s sub of
        Some i \<Rightarrow> if i + length sub \<le> n then Some i else None
      | None \<Rightarrow> None)"
proof (induction s arbitrary: n)
  case Nil
  then show ?case by simp
next
  case (Cons c cs)
  show ?case
  proof (cases n)
    case 0
    with Cons.prems show ?thesis by (auto split: option.splits)
  next
    case (Suc m)
    have p: "prefix sub (c # take m cs) \<longleftrightarrow> prefix sub (c # cs) \<and> length sub \<le> Suc m"
      using prefix_take_iff [of sub "Suc m" "c # cs"] by simp
    show ?thesis
      using Cons.IH [OF Cons.prems, of m] Suc p
      by (auto split: option.splits)
  qed
qed

lemma py_lower_take: "py_lower (take n s) = take n (py_lower s)"
  by (simp add: py_lower_def take_map)

lemma strip_to_jpg_idem: "strip_to_jpg (strip_to_jpg u) = strip_to_jpg u"
  by (cases "py_find (py_lower u) ''.jpg''")
     (simp_all add: strip_to_jpg_def py_lower_take py_find_take)

lemma base_jpg_idem: "base_jpg (base_jpg u) = base_jpg u"
  by (cases "py_find u ''.jpg''")
     (simp_all add: base_jpg_def py_find_take)

lemma strip_to_jpg_engine_eq:
  "strip_to_jpg_engine u =
     (case (py_find (py_lower u) ''.jpg'', py_find (py_lower u) ''.png'') of
        (None, None) \<Rightarrow> u
      | (Some i, None) \<Rightarrow> take (i + 4) u
      | (None, Some j) \<Rightarrow> take (j + 4) u
      | (Some i, Some j) \<Rightarrow> take (min i j + 4) u)"
  by (auto simp: strip_to_jpg_engine_def List.map_filter_simps Let_def min_def split: option.splits)

lemma strip_to_jpg_engine_idem: "strip_to_jpg_engine (strip_to_jpg_engine u) = strip_to_jpg_engine u"
proof (cases "py_find (py_lower u) ''.jpg''")
  case None
  note j = this
  show ?thesis
  proof (cases "py_find (py_lower u) ''.png''")
    case None
    with j show ?thesis by (simp add: strip_to_jpg_engine_eq)
  next
    case (Some b)
    with j show ?thesis by (simp add: strip_to_jpg_engine_eq py_lower_take py_find_take)
  qed
next
  case (Some a)
  note j = this
  show ?thesis
  proof (cases "py_find (py_lower u) ''.png''")
    case None
    with j show ?thesis by (simp add: strip_to_jpg_engine_eq py_lower_take py_find_take)
  next
    case (Some b)
    with j show ?thesis
      by (cases "a \<le> b") (auto simp add: strip_to_jpg_engine_eq py_lower_take py_find_take min_def)
  qed
qed

section \<open>The canonical key is a prefix, and cutting twice changes nothing\<close>

text \<open>
  Claim C10. For every string \<open>u\<close>, the canonical key \<open>strip_to_jpg u\<close> is a prefix of
  \<open>u\<close>, so truncation only drops a suffix, and \<open>strip_to_jpg\<close> is idempotent. The same
  holds for \<open>base_jpg\<close> of \<open>extraction.py\<close> and for the \<open>strip_to_jpg\<close> of
  \<open>ExtractionEngine/extraction_dynamic.py\<close>.
\<close>

theorem canonical_key_prefix_idempotent:
  "prefix (strip_to_jpg u) u \<and> strip_to_jpg (strip_to_jpg u) = strip_to_jpg u \<and>
   prefix (base_jpg u) u \<and> base_jpg (base_jpg u) = base_jpg u \<and>
   prefix (strip_to_jpg_engine u) u \<and>
   strip_to_jpg_engine (strip_to_jpg_engine u) = strip_to_jpg_engine u"
proof -
  have "prefix (strip_to_jpg u) u"
    by (simp add: strip_to_jpg_def take_is_prefix split: option.splits)
  moreover have "prefix (base_jpg u) u"
    by (simp add: base_jpg_def take_is_prefix split: option.splits)
  moreover have "prefix (strip_to_jpg_engine u) u"
    by (simp add: strip_to_jpg_engine_eq take_is_prefix split: option.splits)
  ultimately show ?thesis
    by (simp add: strip_to_jpg_idem base_jpg_idem strip_to_jpg_engine_idem)
qed

section \<open>The URL normaliser\<close>

text \<open>
  Claim C7 says that the normaliser also resolves a relative URL against the base URL
  of the page. \<open>normalize\<close> has no base URL to resolve against: a relative URL comes
  back as it went in, and it still fails the test \<open>startswith("http")\<close> by which the
  download code tells an absolute URL.
\<close>

theorem normalize_relative_counterexample:
  "normalize_py ''img/a.jpg'' = ''img/a.jpg'' \<and>
   \<not> py_startswith (normalize_py ''img/a.jpg'') ''http''"
  by (simp add: normalize_py_def py_startswith_def)

text \<open>
  Claim C7, amended. \<open>normalize\<close> puts \<open>https:\<close> before a URL that starts with \<open>//\<close> and
  returns every other string, absolute or relative, unchanged; it is idempotent; and
  \<open>normalize("//a/b.jpg")\<close> is \<open>https://a/b.jpg\<close>. \<open>normalize_url\<close> of \<open>extraction.py\<close> is
  the same function.
\<close>

theorem normalize_https_or_unchanged:
  "(py_startswith u ''//'' \<longrightarrow> normalize_py u = ''https:'' @ u) \<and>
   (\<not> py_startswith u ''//'' \<longrightarrow> normalize_py u = u) \<and>
   normalize_py (normalize_py u) = normalize_py u \<and>
   normalize_py ''//a/b.jpg'' = ''https://a/b.jpg'' \<and>
   normalize_url u = normalize_py u"
  by (simp add: normalize_py_def normalize_url_def py_startswith_def)

theorem normalize_https_or_unchanged_witness:
  "py_startswith ''//cdn/p2.png?v=3'' ''//'' \<and>
   normalize_py ''//cdn/p2.png?v=3'' = ''https://cdn/p2.png?v=3'' \<and>
   \<not> py_startswith ''https://a/b.jpg'' ''//'' \<and>
   normalize_py ''https://a/b.jpg'' = ''https://a/b.jpg''"
proof -
  have h1: "py_startswith ''//cdn/p2.png?v=3'' ''//''"
    by (simp add: py_startswith_def)
  have h2: "\<not> py_startswith ''https://a/b.jpg'' ''//''"
    by (simp add: py_startswith_def)
  from h1 normalize_https_or_unchanged [of "''//cdn/p2.png?v=3''"]
  have "normalize_py ''//cdn/p2.png?v=3'' = ''https:'' @ ''//cdn/p2.png?v=3''" by blast
  moreover from h2 normalize_https_or_unchanged [of "''https://a/b.jpg''"]
  have "normalize_py ''https://a/b.jpg'' = ''https://a/b.jpg''" by blast
  ultimately show ?thesis using h1 h2 by simp
qed

section \<open>The canonical key\<close>

text \<open>
  Claim C2 lists seven extensions. \<open>strip_to_jpg\<close> looks for \<open>.jpg\<close> only: in
  \<open>https://cdn/p2.png?v=3\<close> the extension \<open>.png\<close> stands at index 14, and the URL is
  returned whole, not cut after it.
\<close>

theorem strip_to_jpg_png_counterexample:
  "py_find (py_lower ''https://cdn/p2.png?v=3'') ''.png'' = Some 14 \<and>
   strip_to_jpg ''https://cdn/p2.png?v=3'' = ''https://cdn/p2.png?v=3'' \<and>
   strip_to_jpg ''https://cdn/p2.png?v=3'' \<noteq> take (14 + 4) ''https://cdn/p2.png?v=3''"
  by code_simp

lemma py_find_first:
  "prefix sub (drop i s) \<Longrightarrow> \<forall>j<i. \<not> prefix sub (drop j s) \<Longrightarrow> sub \<noteq> [] \<Longrightarrow>
   py_find s sub = Some i"
proof -
  assume a: "prefix sub (drop i s)" and b: "\<forall>j<i. \<not> prefix sub (drop j s)" and c: "sub \<noteq> []"
  have "i \<le> length s"
  proof (rule ccontr)
    assume "\<not> i \<le> length s"
    then have "drop i s = []" by simp
    with a c show False by simp
  qed
  with a b show ?thesis by (simp add: py_find_Some_iff)
qed

lemma py_find_absent:
  "\<forall>j. \<not> prefix sub (drop j s) \<Longrightarrow> py_find s sub = None"
  by (simp add: py_find_None_iff)

text \<open>
  Claim C2, amended. For every URL whose code points are below 256 (the strings of this
  model, on which \<open>str.lower\<close> keeps every character at its index),
  \<open>strip_to_jpg\<close> of \<open>src/extraction_dynamic.py\<close> finds the first
  case-insensitive occurrence of \<open>.jpg\<close> and returns the URL cut right after it; without
  one it returns the URL unchanged. \<open>base_jpg\<close> does the same for the first \<open>.jpg\<close> in
  lower case. \<open>strip_to_jpg\<close> of \<open>ExtractionEngine/extraction_dynamic.py\<close> does it for the
  first occurrence of \<open>.jpg\<close> or \<open>.png\<close>. None of them knows \<open>.jpeg\<close>, \<open>.webp\<close>, \<open>.gif\<close>,
  \<open>.bmp\<close> or \<open>.tiff\<close>.
\<close>

theorem strip_to_jpg_first_occurrence:
  "(prefix ''.jpg'' (drop i (py_lower u)) \<and> (\<forall>j<i. \<not> prefix ''.jpg'' (drop j (py_lower u)))
      \<longrightarrow> strip_to_jpg u = take (i + 4) u) \<and>
   ((\<forall>j. \<not> prefix ''.jpg'' (drop j (py_lower u))) \<longrightarrow> strip_to_jpg u = u) \<and>
   (prefix ''.jpg'' (drop i u) \<and> (\<forall>j<i. \<not> prefix ''.jpg'' (drop j u))
      \<longrightarrow> base_jpg u = take (i + 4) u) \<and>
   ((\<forall>j. \<not> prefix ''.jpg'' (drop j u)) \<longrightarrow> base_jpg u = u) \<and>
   ((prefix ''.jpg'' (drop i (py_lower u)) \<or> prefix ''.png'' (drop i (py_lower u))) \<and>
    (\<forall>j<i. \<not> prefix ''.jpg'' (drop j (py_lower u)) \<and> \<not> prefix ''.png'' (drop j (py_lower u)))
      \<longrightarrow> strip_to_jpg_engine u = take (i + 4) u) \<and>
   ((\<forall>j. \<not> prefix ''.jpg'' (drop j (py_lower u)) \<and> \<not> prefix ''.png'' (drop j (py_lower u)))
      \<longrightarrow> strip_to_jpg_engine u = u)"
proof -
  have 1: "strip_to_jpg u = take (i + 4) u"
    if "prefix ''.jpg'' (drop i (py_lower u))" "\<forall>j<i. \<not> prefix ''.jpg'' (drop j (py_lower u))"
    using py_find_first [OF that] by (simp add: strip_to_jpg_def)
  have 2: "strip_to_jpg u = u" if "\<forall>j. \<not> prefix ''.jpg'' (drop j (py_lower u))"
    using py_find_absent [OF that] by (simp add: strip_to_jpg_def)
  have 3: "base_jpg u = take (i + 4) u"
    if "prefix ''.jpg'' (drop i u)" "\<forall>j<i. \<not> prefix ''.jpg'' (drop j u)"
    using py_find_first [OF that] by (simp add: base_jpg_def)
  have 4: "base_jpg u = u" if "\<forall>j. \<not> prefix ''.jpg'' (drop j u)"
    using py_find_absent [OF that] by (simp add: base_jpg_def)
  have 5: "strip_to_jpg_engine u = take (i + 4) u"
    if o: "prefix ''.jpg'' (drop i (py_lower u)) \<or> prefix ''.png'' (drop i (py_lower u))"
    and n: "\<forall>j<i. \<not> prefix ''.jpg'' (drop j (py_lower u)) \<and> \<not> prefix ''.png'' (drop j (py_lower u))"
  proof -
    have nj: "\<forall>j<i. \<not> prefix ''.jpg'' (drop j (py_lower u))"
      and np: "\<forall>j<i. \<not> prefix ''.png'' (drop j (py_lower u))"
      using n by auto
    have lj: "i \<le> a" if "py_find (py_lower u) ''.jpg'' = Some a" for a
      using that nj by (auto simp: py_find_Some_iff not_less [symmetric])
    have lp: "i \<le> b" if "py_find (py_lower u) ''.png'' = Some b" for b
      using that np by (auto simp: py_find_Some_iff not_less [symmetric])
    from o show ?thesis
    proof
      assume "prefix ''.jpg'' (drop i (py_lower u))"
      then have "py_find (py_lower u) ''.jpg'' = Some i"
        using nj by (simp add: py_find_first)
      then show ?thesis
        using lp by (auto simp: strip_to_jpg_engine_eq min_def split: option.splits)
    next
      assume "prefix ''.png'' (drop i (py_lower u))"
      then have "py_find (py_lower u) ''.png'' = Some i"
        using np by (simp add: py_find_first)
      then show ?thesis
        using lj by (auto simp: strip_to_jpg_engine_eq min_def split: option.splits)
    qed
  qed
  have 6: "strip_to_jpg_engine u = u"
    if "\<forall>j. \<not> prefix ''.jpg'' (drop j (py_lower u)) \<and> \<not> prefix ''.png'' (drop j (py_lower u))"
  proof -
    from that have "py_find (py_lower u) ''.jpg'' = None" "py_find (py_lower u) ''.png'' = None"
      by (simp_all add: py_find_absent)
    then show ?thesis by (simp add: strip_to_jpg_engine_eq)
  qed
  from 1 2 3 4 5 6 show ?thesis by blast
qed

theorem strip_to_jpg_first_occurrence_witness:
  "prefix ''.jpg'' (drop 11 (py_lower ''https://x/a.JPG?w=1'')) \<and>
   \<not> (\<exists>j<11. prefix ''.jpg'' (drop j (py_lower ''https://x/a.JPG?w=1''))) \<and>
   strip_to_jpg ''https://x/a.JPG?w=1'' = ''https://x/a.JPG'' \<and>
   \<not> (\<exists>j. prefix ''.jpg'' (drop j (py_lower ''https://x/a.webp?w=1''))) \<and>
   strip_to_jpg ''https://x/a.webp?w=1'' = ''https://x/a.webp?w=1''"
proof -
  have f: "py_find (py_lower ''https://x/a.JPG?w=1'') ''.jpg'' = Some 11"
    by code_simp
  have h1: "prefix ''.jpg'' (drop 11 (py_lower ''https://x/a.JPG?w=1''))"
    and h2: "\<forall>j<11. \<not> prefix ''.jpg'' (drop j (py_lower ''https://x/a.JPG?w=1''))"
    using f unfolding py_find_Some_iff by blast+
  have g: "py_find (py_lower ''https://x/a.webp?w=1'') ''.jpg'' = None"
    by code_simp
  have "\<forall>j\<le>length (py_lower ''https://x/a.webp?w=1'').
          \<not> prefix ''.jpg'' (drop j (py_lower ''https://x/a.webp?w=1''))"
    using g unfolding py_find_None_iff .
  then have h3: "\<forall>j. \<not> prefix ''.jpg'' (drop j (py_lower ''https://x/a.webp?w=1''))"
    by (metis drop_all nle_le prefix_Nil list.distinct(1) drop_eq_Nil)
  from h1 h2 strip_to_jpg_first_occurrence [of 11 "''https://x/a.JPG?w=1''"]
  have r1: "strip_to_jpg ''https://x/a.JPG?w=1'' = take (11 + 4) ''https://x/a.JPG?w=1''"
    by blast
  from h3 strip_to_jpg_first_occurrence [of 0 "''https://x/a.webp?w=1''"]
  have r2: "strip_to_jpg ''https://x/a.webp?w=1'' = ''https://x/a.webp?w=1''"
    by blast
  from r1 have r1': "strip_to_jpg ''https://x/a.JPG?w=1'' = ''https://x/a.JPG''" by simp
  from h1 h2 h3 r1' r2 show ?thesis by blast
qed

section \<open>Keys are kept once, in the order they are first seen\<close>

lemma keep_first_pair:
  "keep_first (r, sn) k = (if k \<notin> sn then (r @ [k], insert k sn) else (r, sn))"
  by (simp add: keep_first_def)

lemma first_index_snoc_mem: "x \<in> set ks \<Longrightarrow> first_index (ks @ [k]) x = first_index ks x"
  by (simp add: first_index_def takeWhile_append1)

lemma first_index_less: "x \<in> set ks \<Longrightarrow> first_index ks x < length ks"
  unfolding first_index_def by (induction ks) auto

lemma first_index_snoc_new: "k \<notin> set ks \<Longrightarrow> first_index (ks @ [k]) k = length ks"
  unfolding first_index_def by (induction ks) auto

lemma keep_first_scan:
  "snd (foldl keep_first ([], {}) ks) = set (fst (foldl keep_first ([], {}) ks)) \<and>
   set (fst (foldl keep_first ([], {}) ks)) = set ks \<and>
   distinct (fst (foldl keep_first ([], {}) ks)) \<and>
   sorted_wrt (\<lambda>a b. first_index ks a < first_index ks b) (fst (foldl keep_first ([], {}) ks))"
proof (induction ks rule: rev_induct)
  case Nil
  then show ?case by simp
next
  case (snoc k ks)
  obtain r sn where r: "foldl keep_first ([], {}) ks = (r, sn)" by (cases "foldl keep_first ([], {}) ks")
  with snoc have sn: "sn = set r" and rs: "set r = set ks" and d: "distinct r"
    and o: "sorted_wrt (\<lambda>a b. first_index ks a < first_index ks b) r" by simp_all
  have o': "sorted_wrt (\<lambda>a b. first_index (ks @ [k]) a < first_index (ks @ [k]) b) r"
    using rs by (intro sorted_wrt_mono_rel [OF _ o]) (simp add: first_index_snoc_mem)
  have step: "foldl keep_first ([], {}) (ks @ [k]) =
      (if k \<in> set ks then (r, sn) else (r @ [k], insert k sn))"
    using r sn rs by (simp add: keep_first_pair)
  show ?case
  proof (cases "k \<in> set ks")
    case True
    with step have res: "foldl keep_first ([], {}) (ks @ [k]) = (r, sn)" by simp
    show ?thesis unfolding res using True sn rs d o' by (simp add: insert_absorb)
  next
    case False
    have "\<forall>x\<in>set r. first_index (ks @ [k]) x < first_index (ks @ [k]) k"
      using rs False by (simp add: first_index_snoc_mem first_index_snoc_new first_index_less)
    then have o'': "sorted_wrt (\<lambda>a b. first_index (ks @ [k]) a < first_index (ks @ [k]) b) (r @ [k])"
      using o' by (simp add: sorted_wrt_append)
    from step False have res: "foldl keep_first ([], {}) (ks @ [k]) = (r @ [k], insert k sn)"
      by simp
    show ?thesis unfolding res using False sn rs d o'' by simp
  qed
qed

lemma collect_candidate_keep_first:
  "collect_candidate st c = keep_first st (strip_to_jpg (normalize_py c))"
  by (cases st) (simp add: collect_candidate_def keep_first_pair Let_def)

lemma foldl_collect_candidate:
  "foldl collect_candidate st cs = foldl keep_first st (map (\<lambda>c. strip_to_jpg (normalize_py c)) cs)"
  by (induction cs arbitrary: st) (simp_all add: collect_candidate_keep_first)

lemma foldl_nested: "foldl (\<lambda>st x. foldl f st (g x)) st xs = foldl f st (concat (map g xs))"
  by (induction xs arbitrary: st) simp_all

lemma extract_image_srcs_keep_first:
  "extract_image_srcs html t i b = fst (foldl keep_first ([], {}) (candidate_keys html t i b))"
  by (simp add: extract_image_srcs_def candidate_keys_def foldl_nested foldl_collect_candidate
      map_concat o_def split: option.splits)

lemma select_image_keep_first:
  "(unique_bases (select_image p st ch), seen (select_image p st ch)) =
     foldl keep_first (unique_bases st, seen st)
       (case ch of (chosen_full, max_w) \<Rightarrow>
          (case chosen_full of None \<Rightarrow> [] | Some c \<Rightarrow> if c = [] then [] else [base_jpg c]))"
  by (cases ch) (auto simp: select_image_def keep_first_pair Let_def split: option.splits)

lemma scan_imgs_keep_first:
  "scan_imgs p st imgs = (st', None) \<Longrightarrow>
   (unique_bases st', seen st') =
     foldl keep_first (unique_bases st, seen st) (concat (map choice_key imgs))"
proof (induction imgs arbitrary: st)
  case Nil
  then show ?case by simp
next
  case (Cons img imgs)
  from Cons.prems obtain ch where ch: "choose_full img = Inr ch"
    and rest: "scan_imgs p (select_image p st ch) imgs = (st', None)"
    by (auto split: sum.splits)
  have k: "choice_key img =
      (case ch of (chosen_full, max_w) \<Rightarrow>
         (case chosen_full of None \<Rightarrow> [] | Some c \<Rightarrow> if c = [] then [] else [base_jpg c]))"
    using ch by (simp add: choice_key_def)
  from Cons.IH [OF rest] select_image_keep_first [of p st ch] k
  show ?case by simp
qed

lemma process_html_keep_first:
  assumes "snd (process_html net writable w html page_url download download_dir) = Inr bases"
  shows "bases = fst (foldl keep_first ([], {}) (slider_keys html))"
proof (cases "writable output_log")
  case False
  with assms show ?thesis by (simp add: process_html_def)
next
  case True
  show ?thesis
  proof (cases "soup_find_id html ''Product-Slider''")
    case None
    with assms True show ?thesis by (simp add: process_html_def slider_keys_def)
  next
    case (Some slider)
    let ?st0 = "\<lparr>unique_bases = [], seen = {}, base_to_full = Map.empty,
        scan_log = log_event (w_log w) ''slider_found'' page_url [] [] ''ok'' (Text [])\<rparr>"
    obtain st err where sc: "scan_imgs page_url ?st0 (el_imgs slider) = (st, err)"
      by (cases "scan_imgs page_url ?st0 (el_imgs slider)")
    with assms Some True have e: "err = None" and b: "bases = unique_bases st"
      by (auto simp: process_html_def Let_def split: option.splits if_splits)
    from sc e scan_imgs_keep_first [of page_url ?st0 "el_imgs slider" st]
    have "(unique_bases st, seen st) =
        foldl keep_first ([], {}) (concat (map choice_key (el_imgs slider)))"
      by simp
    then have "unique_bases st =
        fst (foldl keep_first ([], {}) (concat (map choice_key (el_imgs slider))))"
      by (metis fst_conv)
    with b Some show ?thesis by (simp add: slider_keys_def)
  qed
qed

section \<open>Inline data is skipped by \<open>extract_image_srcs\<close>\<close>

lemma img_candidates_eq:
  "img_candidates b img =
     (case img ''d-src'' of
        None \<Rightarrow>
          (case img ''src'' of
             None \<Rightarrow> []
           | Some r \<Rightarrow> if r \<noteq> [] \<and> \<not> py_startswith r ''data:'' then [r] else [])
      | Some d \<Rightarrow>
          if d \<noteq> [] \<and> \<not> py_startswith d ''data:''
          then d # (case img ''src'' of
                      None \<Rightarrow> []
                    | Some r \<Rightarrow>
                        if b \<and> r \<noteq> [] \<and> \<not> py_startswith r ''data:'' \<and> r \<noteq> d then [r]
                        else [])
          else (case img ''src'' of
                  None \<Rightarrow> []
                | Some r \<Rightarrow> if r \<noteq> [] \<and> \<not> py_startswith r ''data:'' then [r] else []))"
  by (cases "img ''d-src''"; cases "img ''src''")
     (simp_all add: img_candidates_def usable_def Let_def)

lemma img_candidates_no_data:
  assumes "c \<in> set (img_candidates b img)"
  shows "c \<noteq> [] \<and> \<not> py_startswith c ''data:''"
  using assms unfolding img_candidates_eq
  by (auto split: option.splits if_splits)

lemma key_no_data:
  assumes "\<not> py_startswith c ''data:''"
  shows "\<not> py_startswith (strip_to_jpg (normalize_py c)) ''data:''"
proof
  assume a: "py_startswith (strip_to_jpg (normalize_py c)) ''data:''"
  have "prefix (strip_to_jpg (normalize_py c)) (normalize_py c)"
    by (simp add: strip_to_jpg_def take_is_prefix split: option.splits)
  with a have "prefix ''data:'' (normalize_py c)"
    unfolding py_startswith_def using prefix_order.trans by blast
  with assms show False
    by (auto simp: normalize_py_def py_startswith_def split: if_splits)
qed

lemma candidate_keys_no_data:
  assumes "k \<in> set (candidate_keys html t i b)"
  shows "\<not> py_startswith k ''data:''"
proof (cases "soup_find_tag_id html t i")
  case None
  with assms show ?thesis by (simp add: candidate_keys_def)
next
  case (Some container)
  with assms obtain c img where "k = strip_to_jpg (normalize_py c)"
    and "c \<in> set (img_candidates b img)"
    by (auto simp: candidate_keys_def)
  then show ?thesis using img_candidates_no_data key_no_data by blast
qed

text \<open>
  Claim C4 holds for every document only where the code has the filter. \<open>process_html\<close>
  of \<open>extraction.py\<close> has none: for an \<open>img\<close> whose only attribute is a data URI in
  \<open>src\<close>, the URI is chosen, kept as its own key and returned.
\<close>

theorem process_html_data_uri_counterexample:
  "snd (process_html (\<lambda>n u. Inl RequestException) (\<lambda>p. True)
          \<lparr>w_log = [], w_requests = [], w_files = []\<rparr>
          [\<lparr>el_name = ''div'', el_attrs = [''id'' \<mapsto> ''Product-Slider''],
            el_imgs = [[''src'' \<mapsto> ''data:image/png;base64,AAAA'']]\<rparr>]
          ''page'' False ''out'')
     = Inr [''data:image/png;base64,AAAA''] \<and>
   py_startswith ''data:image/png;base64,AAAA'' ''data:''"
  by code_simp

text \<open>
  Claim C4, amended. In \<open>extract_image_srcs\<close> of \<open>src/extraction_dynamic.py\<close>, for every
  document, no candidate that begins with \<open>data:\<close> is collected and no entry of the
  result begins with \<open>data:\<close>; an \<open>img\<close> with only a data URI in \<open>src\<close> and no \<open>d-src\<close>
  contributes no candidate. (\<open>process_html\<close> of \<open>extraction.py\<close> applies no such filter.)
\<close>

theorem extract_image_srcs_skips_data_uri:
  "(\<forall>c \<in> set (img_candidates b img). \<not> py_startswith c ''data:'') \<and>
   (\<forall>k \<in> set (extract_image_srcs html t i b). \<not> py_startswith k ''data:'') \<and>
   (img ''d-src'' = None \<and> img ''src'' = Some s \<and> py_startswith s ''data:''
      \<longrightarrow> img_candidates b img = [])"
proof -
  have "set (extract_image_srcs html t i b) = set (candidate_keys html t i b)"
    using keep_first_scan [of "candidate_keys html t i b"]
    by (simp add: extract_image_srcs_keep_first)
  then have "\<forall>k \<in> set (extract_image_srcs html t i b). \<not> py_startswith k ''data:''"
    using candidate_keys_no_data by blast
  moreover have "\<forall>c \<in> set (img_candidates b img). \<not> py_startswith c ''data:''"
    using img_candidates_no_data by blast
  moreover have "img ''d-src'' = None \<and> img ''src'' = Some s \<and> py_startswith s ''data:''
      \<longrightarrow> img_candidates b img = []"
    by (simp add: img_candidates_eq)
  ultimately show ?thesis by blast
qed

theorem extract_image_srcs_skips_data_uri_witness:
  "img_candidates False [''src'' \<mapsto> ''data:image/png;base64,AAAA''] = [] \<and>
   extract_image_srcs
     [\<lparr>el_name = ''div'', el_attrs = [''id'' \<mapsto> ''g''],
       el_imgs = [[''src'' \<mapsto> ''data:image/png;base64,AAAA''],
                  [''src'' \<mapsto> ''data:image/gif;base64,R0'', ''d-src'' \<mapsto> ''//cdn/p2.png?v=3'']]\<rparr>]
     ''div'' ''g'' True = [''https://cdn/p2.png?v=3''] \<and>
   \<not> py_startswith ''https://cdn/p2.png?v=3'' ''data:''"
proof -
  let ?doc = "[\<lparr>el_name = ''div'', el_attrs = [''id'' \<mapsto> ''g''],
       el_imgs = [[''src'' \<mapsto> ''data:image/png;base64,AAAA''],
                  [''src'' \<mapsto> ''data:image/gif;base64,R0'', ''d-src'' \<mapsto> ''//cdn/p2.png?v=3'']]\<rparr>]"
  have e: "extract_image_srcs ?doc ''div'' ''g'' True = [''https://cdn/p2.png?v=3'']"
    by code_simp
  have h: "[''src'' \<mapsto> ''data:image/png;base64,AAAA''] ''d-src'' = None \<and>
      [''src'' \<mapsto> ''data:image/png;base64,AAAA''] ''src'' = Some ''data:image/png;base64,AAAA'' \<and>
      py_startswith ''data:image/png;base64,AAAA'' ''data:''"
    by (simp add: py_startswith_def)
  note t = extract_image_srcs_skips_data_uri
    [where b = True and html = ?doc and t = "''div''" and i = "''g''"
       and img = "[''src'' \<mapsto> ''data:image/png;base64,AAAA'']"
       and s = "''data:image/png;base64,AAAA''"]
  from t h have c: "img_candidates True [''src'' \<mapsto> ''data:image/png;base64,AAAA''] = []"
    by blast
  from t e have n: "\<not> py_startswith ''https://cdn/p2.png?v=3'' ''data:''"
    by simp
  have "img_candidates False [''src'' \<mapsto> ''data:image/png;base64,AAAA''] = []"
    using extract_image_srcs_skips_data_uri
      [where b = False and img = "[''src'' \<mapsto> ''data:image/png;base64,AAAA'']"
         and s = "''data:image/png;base64,AAAA''"] h
    by blast
  with e n show ?thesis by simp
qed

section \<open>A missing container\<close>

text \<open>
  Claim C5 has every extraction log the miss as a container-missing event.
  \<open>extract_image_srcs\<close> of \<open>src/extraction_dynamic.py\<close>, the function that takes a
  locator, returns the empty list for a document without the container and writes
  nothing: the log is as empty after the call as before.
\<close>

theorem extract_image_srcs_no_log_counterexample:
  "soup_find_tag_id
     [\<lparr>el_name = ''div'', el_attrs = [''id'' \<mapsto> ''footer''], el_imgs = [[''src'' \<mapsto> ''a.jpg'']]\<rparr>]
     ''product-slider'' ''Product-Slider'' = None \<and>
   (case run_extract_image_srcs \<lparr>w_log = [], w_requests = [], w_files = []\<rparr>
           [\<lparr>el_name = ''div'', el_attrs = [''id'' \<mapsto> ''footer''],
             el_imgs = [[''src'' \<mapsto> ''a.jpg'']]\<rparr>]
           ''product-slider'' ''Product-Slider'' False
    of (w, r) \<Rightarrow> (w_log w, r)) = ([], [])"
  by (simp add: run_extract_image_srcs_def extract_image_srcs_def soup_find_tag_id_def)

text \<open>
  Claim C5, amended. \<open>process_html\<close> of \<open>extraction.py\<close> has the fixed locator
  \<open>id="Product-Slider"\<close>. When no element of the document has this id and the log
  file can be written, it returns the empty list, raises nothing, and appends exactly
  one line to the audit log, with stage \<open>slider_missing\<close> and status \<open>no_slider\<close>;
  this holds with and without the download. When the log file cannot be written, the
  call is left by the \<open>OSError\<close> of \<open>log_event\<close>. \<open>extract_all_image_urls\<close> returns the
  empty list for such a document. \<open>extract_image_srcs\<close> returns the empty list when no
  element matches its locator, a tag name and an id, and leaves the log, the requests
  and the files as they were.
\<close>

theorem container_missing_empty_result:
  "((\<forall>e \<in> set html. el_attrs e ''id'' \<noteq> Some ''Product-Slider'') \<and> writable output_log \<longrightarrow>
      process_html net writable w html page_url download download_dir =
        (w\<lparr>w_log := w_log w @
             [\<lparr>ev_stage = ''slider_missing'', ev_page_url = page_url, ev_image_base = [],
               ev_image_full = [], ev_status = ''no_slider'',
               ev_note = Text ''Product-Slider element not found''\<rparr>]\<rparr>,
         Inr [])) \<and>
   (\<not> writable output_log \<longrightarrow>
      process_html net writable w html page_url download download_dir = (w, Inl OSError)) \<and>
   ((\<forall>e \<in> set html. el_attrs e ''id'' \<noteq> Some ''Product-Slider'') \<longrightarrow>
      extract_all_image_urls html = Inr []) \<and>
   ((\<forall>e \<in> set html. \<not> (el_name e = container_tag \<and> el_attrs e ''id'' = Some container_id)) \<longrightarrow>
      run_extract_image_srcs w html container_tag container_id include_both = (w, []))"
proof -
  have 1: "soup_find_id html ''Product-Slider'' = None"
    if "\<forall>e \<in> set html. el_attrs e ''id'' \<noteq> Some ''Product-Slider''"
    using that by (simp add: soup_find_id_def find_None_iff)
  have 2: "soup_find_tag_id html container_tag container_id = None"
    if "\<forall>e \<in> set html. \<not> (el_name e = container_tag \<and> el_attrs e ''id'' = Some container_id)"
    using that by (simp add: soup_find_tag_id_def find_None_iff)
  show ?thesis
    using 1 2
    by (auto simp: process_html_def log_event_def extract_all_image_urls_def
        extract_image_srcs_def run_extract_image_srcs_def)
qed

theorem container_missing_empty_result_witness:
  "process_html (\<lambda>n u. Inl RequestException) (\<lambda>p. True)
     \<lparr>w_log = [], w_requests = [], w_files = []\<rparr>
     [\<lparr>el_name = ''div'', el_attrs = [''id'' \<mapsto> ''footer''], el_imgs = [[''src'' \<mapsto> ''a.jpg'']]\<rparr>]
     ''page'' True ''out'' =
     (\<lparr>w_log = [\<lparr>ev_stage = ''slider_missing'', ev_page_url = ''page'', ev_image_base = [],
                   ev_image_full = [], ev_status = ''no_slider'',
                   ev_note = Text ''Product-Slider element not found''\<rparr>],
        w_requests = [], w_files = []\<rparr>,
      Inr []) \<and>
   process_html (\<lambda>n u. Inl RequestException) (\<lambda>p. False)
     \<lparr>w_log = [], w_requests = [], w_files = []\<rparr>
     [\<lparr>el_name = ''div'', el_attrs = [''id'' \<mapsto> ''footer''], el_imgs = [[''src'' \<mapsto> ''a.jpg'']]\<rparr>]
     ''page'' True ''out'' = (\<lparr>w_log = [], w_requests = [], w_files = []\<rparr>, Inl OSError) \<and>
   extract_all_image_urls
     [\<lparr>el_name = ''div'', el_attrs = [''id'' \<mapsto> ''footer''], el_imgs = [[''src'' \<mapsto> ''a.jpg'']]\<rparr>]
     = Inr [] \<and>
   run_extract_image_srcs \<lparr>w_log = [], w_requests = [], w_files = []\<rparr>
     [\<lparr>el_name = ''div'', el_attrs = [''id'' \<mapsto> ''footer''], el_imgs = [[''src'' \<mapsto> ''a.jpg'']]\<rparr>]
     ''product-slider'' ''Product-Slider'' False
     = (\<lparr>w_log = [], w_requests = [], w_files = []\<rparr>, [])"
proof -
  let ?doc = "[\<lparr>el_name = ''div'', el_attrs = [''id'' \<mapsto> ''footer''],
                el_imgs = [[''src'' \<mapsto> ''a.jpg'']]\<rparr>]"
  let ?w = "\<lparr>w_log = [], w_requests = [], w_files = []\<rparr>"
  have h1: "\<forall>e \<in> set ?doc. el_attrs e ''id'' \<noteq> Some ''Product-Slider''" by simp
  have h2: "\<forall>e \<in> set ?doc. \<not> (el_name e = ''product-slider'' \<and> el_attrs e ''id'' = Some ''Product-Slider'')"
    by simp
  note t = container_missing_empty_result
    [where html = ?doc and net = "\<lambda>n u. Inl RequestException" and writable = "\<lambda>p. True"
       and w = ?w and page_url = "''page''"
       and download = True and download_dir = "''out''" and container_tag = "''product-slider''"
       and container_id = "''Product-Slider''" and include_both = False]
  note f = container_missing_empty_result
    [where html = ?doc and net = "\<lambda>n u. Inl RequestException" and writable = "\<lambda>p. False"
       and w = ?w and page_url = "''page''"
       and download = True and download_dir = "''out''"]
  from t [THEN conjunct1] h1 have a: "process_html (\<lambda>n u. Inl RequestException) (\<lambda>p. True)
     ?w ?doc ''page'' True ''out'' =
     (?w\<lparr>w_log := w_log ?w @
             [\<lparr>ev_stage = ''slider_missing'', ev_page_url = ''page'', ev_image_base = [],
               ev_image_full = [], ev_status = ''no_slider'',
               ev_note = Text ''Product-Slider element not found''\<rparr>]\<rparr>,
         Inr [])"
    by simp
  from f [THEN conjunct2, THEN conjunct1]
  have b: "process_html (\<lambda>n u. Inl RequestException) (\<lambda>p. False) ?w ?doc ''page'' True ''out''
      = (?w, Inl OSError)"
    by simp
  from t [THEN conjunct2, THEN conjunct2, THEN conjunct1] h1
  have c: "extract_all_image_urls ?doc = Inr []" by (rule mp)
  from t [THEN conjunct2, THEN conjunct2, THEN conjunct2] h2
  have d: "run_extract_image_srcs ?w ?doc ''product-slider'' ''Product-Slider'' False = (?w, [])"
    by (rule mp)
  from a b c d show ?thesis by simp
qed

section \<open>When \<open>process_html\<close> returns\<close>

lemma scan_imgs_no_error:
  "\<forall>img \<in> set imgs. \<exists>ch. choose_full img = Inr ch \<Longrightarrow> snd (scan_imgs p st imgs) = None"
  by (induction imgs arbitrary: st) auto

lemma process_html_returns:
  assumes "soup_find_id html ''Product-Slider'' = Some slider"
    and "\<forall>img \<in> set (el_imgs slider). \<exists>ch. choose_full img = Inr ch"
    and "writable output_log"
    and "download \<longrightarrow> download_dir \<noteq> [] \<and> writable download_dir"
  shows "snd (process_html net writable w html page_url download download_dir)
    = Inr (fst (foldl keep_first ([], {}) (slider_keys html)))"
proof -
  let ?st0 = "\<lparr>unique_bases = [], seen = {}, base_to_full = Map.empty,
      scan_log = log_event (w_log w) ''slider_found'' page_url [] [] ''ok'' (Text [])\<rparr>"
  obtain st err where sc: "scan_imgs page_url ?st0 (el_imgs slider) = (st, err)"
    by (cases "scan_imgs page_url ?st0 (el_imgs slider)")
  with scan_imgs_no_error [OF assms(2), of page_url ?st0] have e: "err = None" by simp
  with sc assms(1) assms(3) assms(4)
  have "snd (process_html net writable w html page_url download download_dir)
      = Inr (unique_bases st)"
    by (simp add: process_html_def Let_def)
  then show ?thesis using process_html_keep_first by metis
qed

section \<open>The end-to-end scenario\<close>

text \<open>
  Claim C1 expects two entries, \<open>p1-800.jpg\<close> and \<open>https://cdn/p2.png\<close>. Neither
  resolver returns them: \<open>extract_image_srcs\<close> returns one entry and \<open>process_html\<close>
  returns three.
\<close>

theorem gallery_scenario_counterexample:
  "extract_image_srcs gallery_scenario ''product-slider'' ''Product-Slider'' False
     \<noteq> [''p1-800.jpg'', ''https://cdn/p2.png''] \<and>
   length (extract_image_srcs gallery_scenario ''product-slider'' ''Product-Slider'' False) = 1 \<and>
   snd (process_html (\<lambda>n u. Inl RequestException) (\<lambda>p. True)
          \<lparr>w_log = [], w_requests = [], w_files = []\<rparr> gallery_scenario ''page'' False ''out'')
     \<noteq> Inr [''p1-800.jpg'', ''https://cdn/p2.png'']"
  by code_simp

text \<open>
  Claim C1, amended. For the document of the scenario, \<open>extract_image_srcs\<close> of
  \<open>src/extraction_dynamic.py\<close> returns exactly one entry, \<open>https://cdn/p2.png?v=3\<close>: it
  reads only \<open>src\<close> and \<open>d-src\<close>, never \<open>srcset\<close>, it cuts a key only at \<open>.jpg\<close>, and it
  skips the data URI. \<open>process_html\<close> of \<open>extraction.py\<close>, with or without the download,
  returns exactly three entries whenever the log file can be written and, for a
  download, the download directory can be created: \<open>p1-800.jpg\<close>, the widest entry
  of the \<open>srcset\<close>; \<open>https://cdn/p2.png?v=3\<close>, whole because \<open>base_jpg\<close> cuts only at
  \<open>.jpg\<close>; and the data URI, in this order. The key \<open>https://cdn/p2.png\<close> of the claim
  is what \<open>strip_to_jpg\<close> of \<open>ExtractionEngine/extraction_dynamic.py\<close> makes of the
  second URL.
\<close>

theorem gallery_scenario_results:
  "extract_image_srcs gallery_scenario ''product-slider'' ''Product-Slider'' include_both
     = [''https://cdn/p2.png?v=3''] \<and>
   (writable output_log \<and> (download \<longrightarrow> download_dir \<noteq> [] \<and> writable download_dir) \<longrightarrow>
      snd (process_html net writable w gallery_scenario page_url download download_dir)
        = Inr [''p1-800.jpg'', ''https://cdn/p2.png?v=3'', ''data:image/png;base64,AAAA'']) \<and>
   strip_to_jpg_engine (normalize_py ''//cdn/p2.png?v=3'') = ''https://cdn/p2.png''"
proof -
  have k: "slider_keys gallery_scenario
      = [''p1-800.jpg'', ''https://cdn/p2.png?v=3'', ''data:image/png;base64,AAAA'']"
    by code_simp
  have c: "candidate_keys gallery_scenario ''product-slider'' ''Product-Slider'' include_both
      = [''https://cdn/p2.png?v=3'']"
  proof (cases include_both)
    case True
    then show ?thesis by code_simp
  next
    case False
    then show ?thesis by code_simp
  qed
  have 1: "extract_image_srcs gallery_scenario ''product-slider'' ''Product-Slider'' include_both
     = [''https://cdn/p2.png?v=3'']"
    unfolding extract_image_srcs_keep_first c by (simp add: keep_first_pair)
  have f: "soup_find_id gallery_scenario ''Product-Slider'' = Some (hd gallery_scenario)"
    by (simp add: soup_find_id_def gallery_scenario_def)
  have i: "el_imgs (hd gallery_scenario) =
      [[''srcset'' \<mapsto> ''p1-200.jpg 200w, p1-800.jpg 800w''], [''src'' \<mapsto> ''//cdn/p2.png?v=3''],
       [''src'' \<mapsto> ''data:image/png;base64,AAAA'']]"
    by (simp add: gallery_scenario_def)
  have c1: "choose_full [''srcset'' \<mapsto> ''p1-200.jpg 200w, p1-800.jpg 800w'']
      = Inr (Some ''p1-800.jpg'', 800)"
    by code_simp
  have c2: "choose_full [''src'' \<mapsto> ''//cdn/p2.png?v=3''] = Inr (Some ''https://cdn/p2.png?v=3'', - 1)"
    by code_simp
  have c3: "choose_full [''src'' \<mapsto> ''data:image/png;base64,AAAA'']
      = Inr (Some ''data:image/png;base64,AAAA'', - 1)"
    by code_simp
  have a: "\<forall>img \<in> set (el_imgs (hd gallery_scenario)). \<exists>ch. choose_full img = Inr ch"
    unfolding i using c1 c2 c3 by simp
  have 2: "snd (process_html net writable w gallery_scenario page_url download download_dir)
     = Inr [''p1-800.jpg'', ''https://cdn/p2.png?v=3'', ''data:image/png;base64,AAAA'']"
    if wl: "writable output_log" and wd: "download \<longrightarrow> download_dir \<noteq> [] \<and> writable download_dir"
    using process_html_returns [OF f a wl wd, of net w page_url]
    unfolding k by (simp add: keep_first_pair)
  have 3: "strip_to_jpg_engine (normalize_py ''//cdn/p2.png?v=3'') = ''https://cdn/p2.png''"
    by code_simp
  from 1 2 3 show ?thesis by simp
qed

theorem gallery_scenario_results_witness:
  "snd (process_html (\<lambda>n u. Inl RequestException) (\<lambda>p. True)
          \<lparr>w_log = [], w_requests = [], w_files = []\<rparr> gallery_scenario ''page'' True ''out'')
     = Inr [''p1-800.jpg'', ''https://cdn/p2.png?v=3'', ''data:image/png;base64,AAAA''] \<and>
   snd (process_html (\<lambda>n u. Inl RequestException) (\<lambda>p. True)
          \<lparr>w_log = [], w_requests = [], w_files = []\<rparr> gallery_scenario ''page'' False [])
     = Inr [''p1-800.jpg'', ''https://cdn/p2.png?v=3'', ''data:image/png;base64,AAAA'']"
proof -
  have h1: "(\<lambda>p. True) output_log \<and> (True \<longrightarrow> ''out'' \<noteq> [] \<and> (\<lambda>p. True) ''out'')" by simp
  have h2: "(\<lambda>p. True) output_log \<and> (False \<longrightarrow> [] \<noteq> [] \<and> (\<lambda>p. True) [])" by simp
  from gallery_scenario_results
    [where writable = "\<lambda>p. True" and download = True and download_dir = "''out''"
       and net = "\<lambda>n u. Inl RequestException"
       and w = "\<lparr>w_log = [], w_requests = [], w_files = []\<rparr>" and page_url = "''page''",
     THEN conjunct2, THEN conjunct1] h1
  have a: "snd (process_html (\<lambda>n u. Inl RequestException) (\<lambda>p. True)
          \<lparr>w_log = [], w_requests = [], w_files = []\<rparr> gallery_scenario ''page'' True ''out'')
     = Inr [''p1-800.jpg'', ''https://cdn/p2.png?v=3'', ''data:image/png;base64,AAAA'']"
    by (rule mp)
  from gallery_scenario_results
    [where writable = "\<lambda>p. True" and download = False and download_dir = "[]"
       and net = "\<lambda>n u. Inl RequestException"
       and w = "\<lparr>w_log = [], w_requests = [], w_files = []\<rparr>" and page_url = "''page''",
     THEN conjunct2, THEN conjunct1] h2
  have b: "snd (process_html (\<lambda>n u. Inl RequestException) (\<lambda>p. True)
          \<lparr>w_log = [], w_requests = [], w_files = []\<rparr> gallery_scenario ''page'' False [])
     = Inr [''p1-800.jpg'', ''https://cdn/p2.png?v=3'', ''data:image/png;base64,AAAA'']"
    by (rule mp)
  from a b show ?thesis by simp
qed

section \<open>The widest entry of a descriptor set\<close>




subsection \<open>The loop of \<open>extraction.py\<close>\<close>









subsection \<open>The claim\<close>


section \<open>The download and its one retry\<close>

lemma py_str_200: "py_str 200 = ''200''"
  by code_simp

text \<open>
  Claim C6 counts every status that is not a success as a failed validation. Line 209
  tests for 404 only: a first response with status 500, an image content type and a
  body of 600 bytes triggers no retry, although the stored full URL differs from the
  base URL. One request is made and the image is logged as a failure.
\<close>

theorem no_retry_on_500_counterexample:
  "(case process_html
           (\<lambda>n u. Inr \<lparr>status_code = 500, headers = [''Content-Type'' \<mapsto> ''image/png''],
                        content = replicate 600 CHR ''x''\<rparr>)
           (\<lambda>p. True) \<lparr>w_log = [], w_requests = [], w_files = []\<rparr>
           [\<lparr>el_name = ''div'', el_attrs = [''id'' \<mapsto> ''Product-Slider''],
             el_imgs = [[''src'' \<mapsto> ''//x/a.jpg?width=900'']]\<rparr>]
           ''page'' True ''out''
    of (w, r) \<Rightarrow> (w_requests w, map ev_stage (w_log w), map ev_image_full (w_log w), r))
   = ([''https://x/a.jpg''],
      [''slider_found'', ''image_selected'', ''extraction_complete'', ''download_failure'',
       ''download_directory_scan''],
      ['''', ''https://x/a.jpg?width=900'', '''', ''https://x/a.jpg'', ''''],
      Inr [''https://x/a.jpg''])"
  by code_simp

lemma raise_for_status_200: "status_code r = 200 \<Longrightarrow> raise_for_status r = None"
  by (simp add: raise_for_status_def)

lemma startswith_image:
  "py_startswith t ''image/'' \<Longrightarrow> py_startswith t ''image''"
  by (auto simp: py_startswith_def prefix_def)

lemma save_image_requests:
  "w_requests (fst (save_image writable v page_url download_dir i b base_url r)) = w_requests v"
  by (cases "raise_for_status r") (simp_all add: save_image_def Let_def)

lemma download_image_requests:
  "w_requests (download_image net writable page_url download_dir b2f w (i, b)) =
     w_requests (fst (fetch_with_fallback net w (with_protocol b)
        (case b2f b of None \<Rightarrow> with_protocol b | Some f \<Rightarrow> f)))"
proof -
  let ?o = "case b2f b of None \<Rightarrow> with_protocol b | Some f \<Rightarrow> f"
  obtain w1 res where f: "fetch_with_fallback net w (with_protocol b) ?o = (w1, res)"
    by (cases "fetch_with_fallback net w (with_protocol b) ?o")
  show ?thesis
  proof (cases res)
    case (Inl e)
    with f show ?thesis by (simp add: download_image_def Let_def)
  next
    case (Inr resp)
    obtain w2 err where sv:
      "save_image writable w1 page_url download_dir i b (with_protocol b) resp = (w2, err)"
      by (cases "save_image writable w1 page_url download_dir i b (with_protocol b) resp")
    from save_image_requests [of writable w1 page_url download_dir i b "with_protocol b" resp] sv
    have "w_requests w2 = w_requests w1" by simp
    with f Inr sv show ?thesis
      by (cases err) (simp_all add: download_image_def Let_def)
  qed
qed

text \<open>
  Claim C6, amended. For every resolved image, when the first response has status 404,
  or a content type that does not begin with \<open>image\<close>, or a body of fewer than 500
  bytes, the pipeline retries exactly once, against the stored full URL, provided
  that URL differs from the base URL; every other first response, a 500 included, is
  not retried, and no image is requested more than twice. A run whose first response
  is a 404 and whose retry returns status 200 with a content type that begins with
  \<open>image/\<close> and a body of at least 500 bytes writes the body of the retry and is logged
  as \<open>download_success\<close> with status 200; the log line names the base URL and has no
  field that tells that the retry was used.
\<close>

theorem download_retries_once:
  "(let base_url = with_protocol b;
        original_full = (case b2f b of None \<Rightarrow> base_url | Some f \<Rightarrow> f);
        w' = download_image net writable page_url download_dir b2f w (i, b)
    in
      (w_requests w' = w_requests w @ [base_url] \<or>
       w_requests w' = w_requests w @ [base_url, with_protocol original_full]) \<and>
      (net (length (w_requests w)) base_url = Inr r1 \<and>
       (status_code r1 = 404 \<or> \<not> py_startswith (content_type r1) ''image''
          \<or> length (content r1) < 500) \<and>
       original_full \<noteq> base_url \<and> original_full \<noteq> []
         \<longrightarrow> w_requests w' = w_requests w @ [base_url, with_protocol original_full]) \<and>
      (net (length (w_requests w)) base_url = Inr r1 \<and>
       \<not> (status_code r1 = 404 \<or> \<not> py_startswith (content_type r1) ''image''
            \<or> length (content r1) < 500)
         \<longrightarrow> w_requests w' = w_requests w @ [base_url]) \<and>
      (original_full = base_url \<longrightarrow> w_requests w' = w_requests w @ [base_url]) \<and>
      (net (length (w_requests w)) base_url = Inr r1 \<and> status_code r1 = 404 \<and>
       original_full \<noteq> base_url \<and> original_full \<noteq> [] \<and>
       net (Suc (length (w_requests w))) (with_protocol original_full) = Inr r2 \<and>
       status_code r2 = 200 \<and> py_startswith (content_type r2) ''image/'' \<and>
       500 \<le> length (content r2) \<and>
       writable (os_path_join download_dir (str_nat i @ ''_'' @ py_rsplit1_last CHR ''/'' b))
         \<longrightarrow>
           w_log w' = w_log w @
             [\<lparr>ev_stage = ''download_success'', ev_page_url = page_url, ev_image_base = b,
               ev_image_full = base_url, ev_status = ''200'',
               ev_note = Text (''size='' @ str_nat (length (content r2)))\<rparr>] \<and>
           w_files w' = w_files w @
             [(os_path_join download_dir (str_nat i @ ''_'' @ py_rsplit1_last CHR ''/'' b),
               content r2)]))"
proof -
  define base_url where "base_url = with_protocol b"
  define original_full where "original_full = (case b2f b of None \<Rightarrow> base_url | Some f \<Rightarrow> f)"
  define w' where "w' = download_image net writable page_url download_dir b2f w (i, b)"
  define path where
    "path = os_path_join download_dir (str_nat i @ ''_'' @ py_rsplit1_last CHR ''/'' b)"
  have req_fetch:
    "w_requests (fst (fetch_with_fallback net w base_url original_full)) =
       (case net (length (w_requests w)) base_url of
          Inl e \<Rightarrow> w_requests w @ [base_url]
        | Inr r \<Rightarrow>
            if fallback_triggered r \<and> original_full \<noteq> base_url \<and> original_full \<noteq> []
            then w_requests w @ [base_url, with_protocol original_full]
            else w_requests w @ [base_url])"
    by (cases "net (length (w_requests w)) base_url")
       (simp_all add: fetch_with_fallback_def requests_get_def)
  have req: "w_requests w' = w_requests (fst (fetch_with_fallback net w base_url original_full))"
    unfolding w'_def base_url_def original_full_def by (rule download_image_requests)
  have a: "w_requests w' = w_requests w @ [base_url] \<or>
       w_requests w' = w_requests w @ [base_url, with_protocol original_full]"
    unfolding req req_fetch by (simp split: sum.splits)
  have b: "w_requests w' = w_requests w @ [base_url, with_protocol original_full]"
    if "net (length (w_requests w)) base_url = Inr r1"
      "status_code r1 = 404 \<or> \<not> py_startswith (content_type r1) ''image''
          \<or> length (content r1) < 500"
      "original_full \<noteq> base_url" "original_full \<noteq> []"
    unfolding req req_fetch using that by (simp add: fallback_triggered_def)
  have c: "w_requests w' = w_requests w @ [base_url]"
    if "net (length (w_requests w)) base_url = Inr r1"
      "\<not> (status_code r1 = 404 \<or> \<not> py_startswith (content_type r1) ''image''
            \<or> length (content r1) < 500)"
    unfolding req req_fetch using that by (simp add: fallback_triggered_def)
  have d: "w_requests w' = w_requests w @ [base_url]" if "original_full = base_url"
    unfolding req req_fetch using that by (simp split: sum.splits)
  have e: "w_log w' = w_log w @
             [\<lparr>ev_stage = ''download_success'', ev_page_url = page_url, ev_image_base = b,
               ev_image_full = base_url, ev_status = ''200'',
               ev_note = Text (''size='' @ str_nat (length (content r2)))\<rparr>] \<and>
           w_files w' = w_files w @ [(path, content r2)]"
    if "net (length (w_requests w)) base_url = Inr r1" "status_code r1 = 404"
      "original_full \<noteq> base_url" "original_full \<noteq> []"
      "net (Suc (length (w_requests w))) (with_protocol original_full) = Inr r2"
      "status_code r2 = 200" "py_startswith (content_type r2) ''image/''"
      "writable path"
  proof -
    note th = that [unfolded base_url_def original_full_def path_def]
    have f: "fetch_with_fallback net w (with_protocol b)
          (case b2f b of None \<Rightarrow> with_protocol b | Some f \<Rightarrow> f) =
        (w\<lparr>w_requests := w_requests w @
             [with_protocol b,
              with_protocol (case b2f b of None \<Rightarrow> with_protocol b | Some f \<Rightarrow> f)]\<rparr>,
         Inr r2)"
      using th by (simp add: fetch_with_fallback_def requests_get_def fallback_triggered_def)
    have s: "save_image writable
          (w\<lparr>w_requests := w_requests w @
             [with_protocol b,
              with_protocol (case b2f b of None \<Rightarrow> with_protocol b | Some f \<Rightarrow> f)]\<rparr>)
          page_url download_dir i b (with_protocol b) r2 =
        (w\<lparr>w_requests := w_requests w @
             [with_protocol b,
              with_protocol (case b2f b of None \<Rightarrow> with_protocol b | Some f \<Rightarrow> f)],
           w_files := w_files w @
             [(os_path_join download_dir (str_nat i @ ''_'' @ py_rsplit1_last CHR ''/'' b),
               content r2)],
           w_log := w_log w @
             [\<lparr>ev_stage = ''download_success'', ev_page_url = page_url, ev_image_base = b,
               ev_image_full = with_protocol b, ev_status = ''200'',
               ev_note = Text (''size='' @ str_nat (length (content r2)))\<rparr>]\<rparr>,
         None)"
      using th startswith_image [OF th(7)]
      by (simp add: save_image_def raise_for_status_200 Let_def log_event_def py_str_200)
    show ?thesis
      unfolding w'_def base_url_def original_full_def path_def
      by (simp add: download_image_def Let_def f s)
  qed
  from a b c d e show ?thesis
    unfolding Let_def base_url_def [symmetric] original_full_def [symmetric] w'_def [symmetric]
      path_def [symmetric]
    by blast
qed

theorem download_retries_once_witness:
  "(let w' = download_image
        (\<lambda>n u. if u = ''https://x/a.jpg''
               then Inr \<lparr>status_code = 404, headers = Map.empty, content = []\<rparr>
               else Inr \<lparr>status_code = 200, headers = [''Content-Type'' \<mapsto> ''image/jpeg''],
                         content = replicate 500 CHR ''x''\<rparr>)
        (\<lambda>p. True) ''page'' ''out'' [''https://x/a.jpg'' \<mapsto> ''https://x/a.jpg?width=900'']
        \<lparr>w_log = [], w_requests = [], w_files = []\<rparr> (1, ''https://x/a.jpg'')
    in w_requests w' = [''https://x/a.jpg'', ''https://x/a.jpg?width=900''] \<and>
       w_log w' = [\<lparr>ev_stage = ''download_success'', ev_page_url = ''page'',
                    ev_image_base = ''https://x/a.jpg'', ev_image_full = ''https://x/a.jpg'',
                    ev_status = ''200'', ev_note = Text ''size=500''\<rparr>] \<and>
       w_files w' = [(''out/1_a.jpg'', replicate 500 CHR ''x'')])"
proof -
  let ?net = "\<lambda>(n::nat) u. if u = ''https://x/a.jpg''
               then Inr \<lparr>status_code = 404, headers = Map.empty, content = []\<rparr>
               else (Inr \<lparr>status_code = 200, headers = [''Content-Type'' \<mapsto> ''image/jpeg''],
                         content = replicate 500 CHR ''x''\<rparr> :: py_error + response)"
  let ?b = "''https://x/a.jpg''"
  let ?b2f = "[''https://x/a.jpg'' \<mapsto> ''https://x/a.jpg?width=900'']"
  let ?w = "\<lparr>w_log = [], w_requests = [], w_files = []\<rparr>"
  let ?r1 = "\<lparr>status_code = 404, headers = Map.empty, content = []\<rparr>"
  let ?r2 = "\<lparr>status_code = 200, headers = [''Content-Type'' \<mapsto> ''image/jpeg''],
              content = replicate 500 CHR ''x''\<rparr>"
  let ?w' = "download_image ?net (\<lambda>p. True) ''page'' ''out'' ?b2f ?w (1, ?b)"
  have wp: "with_protocol ?b = ?b"
    "with_protocol ''https://x/a.jpg?width=900'' = ''https://x/a.jpg?width=900''"
    by (simp_all add: with_protocol_def py_startswith_def)
  have o: "(case ?b2f ?b of None \<Rightarrow> with_protocol ?b | Some f \<Rightarrow> f) = ''https://x/a.jpg?width=900''"
    by simp
  have o': "(case ?b2f ?b of None \<Rightarrow> ?b | Some f \<Rightarrow> f) = ''https://x/a.jpg?width=900''"
    by simp
  have ct: "py_startswith (content_type ?r2) ''image/''"
    by (simp add: content_type_def py_startswith_def)
  have pth: "os_path_join ''out'' (str_nat 1 @ ''_'' @ py_rsplit1_last CHR ''/'' ?b) = ''out/1_a.jpg''"
    by code_simp
  have sz: "str_nat (length (content ?r2)) = ''500''"
  proof -
    have "str_nat 500 = ''500''" by code_simp
    then show ?thesis by simp
  qed
  note t = download_retries_once
    [where b = ?b and b2f = ?b2f and net = ?net and writable = "\<lambda>p. True"
       and page_url = "''page''" and download_dir = "''out''" and w = ?w and i = 1
       and ?r1.0 = ?r1 and ?r2.0 = ?r2, unfolded Let_def o o' wp pth sz]
  have h1: "?net (length (w_requests ?w)) ?b = Inr ?r1" by simp
  have h2: "?net (Suc (length (w_requests ?w))) ''https://x/a.jpg?width=900'' = Inr ?r2" by simp
  have h3: "status_code ?r1 = 404" "status_code ?r2 = 200" "500 \<le> length (content ?r2)"
    "''https://x/a.jpg?width=900'' \<noteq> ?b" "''https://x/a.jpg?width=900'' \<noteq> []"
    by simp_all
  from t h1 h2 h3 ct
  have "w_requests ?w' = w_requests ?w @ [?b, ''https://x/a.jpg?width=900''] \<and>
      w_log ?w' = w_log ?w @
        [\<lparr>ev_stage = ''download_success'', ev_page_url = ''page'', ev_image_base = ?b,
          ev_image_full = ?b, ev_status = ''200'', ev_note = Text (''size='' @ ''500'')\<rparr>] \<and>
      w_files ?w' = w_files ?w @ [(''out/1_a.jpg'', content ?r2)]"
    by blast
  then show ?thesis by (simp add: Let_def)
qed

section \<open>The order of the downloads in \<open>src/extraction.py\<close>\<close>

text \<open>
  Claim C9 asks that two runs on the same document enumerate the URLs for download in
  the same order. \<open>extract_image_srcs\<close> and \<open>process_html\<close> are functions of the parsed
  document and keep a list next to their set, so their order is fixed. The script
  \<open>src/extraction.py\<close> iterates \<open>set(image_urls)\<close> instead. For a slider with two images
  the list \<open>image_urls\<close> has two members, both orders are iterations of its set, and the
  two orders save different URLs as \<open>image_1.jpg\<close>: the document does not determine the
  download plan.
\<close>

theorem set_iteration_order_not_determined:
  "image_urls [\<lparr>el_name = ''div'', el_attrs = [''id'' \<mapsto> ''Product-Slider''],
                 el_imgs = [[''src'' \<mapsto> ''//x/a.jpg''], [''src'' \<mapsto> ''//x/b.jpg'']]\<rparr>]
     = [''https://x/a.jpg'', ''https://x/b.jpg''] \<and>
   set_iteration [''https://x/a.jpg'', ''https://x/b.jpg''] [''https://x/a.jpg'', ''https://x/b.jpg''] \<and>
   set_iteration [''https://x/a.jpg'', ''https://x/b.jpg''] [''https://x/b.jpg'', ''https://x/a.jpg''] \<and>
   download_plan [''https://x/a.jpg'', ''https://x/b.jpg'']
     = [(''downloaded_images/image_1.jpg'', ''https://x/a.jpg''),
        (''downloaded_images/image_2.jpg'', ''https://x/b.jpg'')] \<and>
   download_plan [''https://x/b.jpg'', ''https://x/a.jpg'']
     = [(''downloaded_images/image_1.jpg'', ''https://x/b.jpg''),
        (''downloaded_images/image_2.jpg'', ''https://x/a.jpg'')]"
proof -
  have 1: "image_urls [\<lparr>el_name = ''div'', el_attrs = [''id'' \<mapsto> ''Product-Slider''],
                 el_imgs = [[''src'' \<mapsto> ''//x/a.jpg''], [''src'' \<mapsto> ''//x/b.jpg'']]\<rparr>]
     = [''https://x/a.jpg'', ''https://x/b.jpg'']"
    by (simp add: image_urls_def soup_find_id_def img_urls_def normalize_py_def py_startswith_def)
  have 2: "set_iteration [''https://x/a.jpg'', ''https://x/b.jpg'']
      [''https://x/a.jpg'', ''https://x/b.jpg'']"
    by (simp add: set_iteration_def)
  have 3: "set_iteration [''https://x/a.jpg'', ''https://x/b.jpg'']
      [''https://x/b.jpg'', ''https://x/a.jpg'']"
    by (simp add: set_iteration_def insert_commute)
  have 4: "download_plan [''https://x/a.jpg'', ''https://x/b.jpg'']
     = [(''downloaded_images/image_1.jpg'', ''https://x/a.jpg''),
        (''downloaded_images/image_2.jpg'', ''https://x/b.jpg'')]"
    by code_simp
  have 5: "download_plan [''https://x/b.jpg'', ''https://x/a.jpg'']
     = [(''downloaded_images/image_1.jpg'', ''https://x/b.jpg''),
        (''downloaded_images/image_2.jpg'', ''https://x/a.jpg'')]"
    by code_simp
  from 1 2 3 4 5 show ?thesis by blast
qed

section \<open>Digits and their number\<close>
















section \<open>Entries, descriptors and the \<open>width=\<close> parameter\<close>


























section \<open>The widest entry: the claim\<close>



section \<open>Distinct keys in first-seen order: the claim\<close>

text \<open>
  Claim C8. The sequence the deduplicating resolver returns holds pairwise distinct
  keys, and they stand in the order in which each key was first seen in the scan of the
  document. For \<open>extract_image_srcs\<close> the keys seen are \<open>candidate_keys\<close>, for
  \<open>process_html\<close> they are \<open>slider_keys\<close>; every key that was seen is returned. Neither
  function changes the list other than by appending a key not seen before, so a
  later image with a key already seen leaves the list as it is. For \<open>process_html\<close>
  this is a statement about the list it returns; a call that is left by an exception
  returns none.
\<close>

theorem resolver_keys_distinct_first_seen:
  "distinct (extract_image_srcs html t i b) \<and>
   set (extract_image_srcs html t i b) = set (candidate_keys html t i b) \<and>
   sorted_wrt (\<lambda>x y. first_index (candidate_keys html t i b) x
                        < first_index (candidate_keys html t i b) y)
     (extract_image_srcs html t i b) \<and>
   (snd (process_html net writable w html page_url download download_dir) = Inr bases \<longrightarrow>
      distinct bases \<and> set bases = set (slider_keys html) \<and>
      sorted_wrt (\<lambda>x y. first_index (slider_keys html) x < first_index (slider_keys html) y)
        bases)"
  using keep_first_scan [of "candidate_keys html t i b"] keep_first_scan [of "slider_keys html"]
    process_html_keep_first [of net writable w html page_url download download_dir bases]
  by (auto simp: extract_image_srcs_keep_first)

theorem resolver_keys_distinct_first_seen_witness:
  "snd (process_html (\<lambda>n u. Inl RequestException) (\<lambda>p. True)
          \<lparr>w_log = [], w_requests = [], w_files = []\<rparr>
          [\<lparr>el_name = ''div'', el_attrs = [''id'' \<mapsto> ''Product-Slider''],
            el_imgs = [[''src'' \<mapsto> ''//x/a.jpg?w=1''], [''srcset'' \<mapsto> ''b.jpg 10w''],
                       [''src'' \<mapsto> ''//x/a.jpg?w=2'']]\<rparr>]
          ''page'' False ''out'')
     = Inr [''https://x/a.jpg'', ''b.jpg''] \<and>
   distinct [''https://x/a.jpg'', ''b.jpg''] \<and>
   sorted_wrt
     (\<lambda>x y. first_index [''https://x/a.jpg'', ''b.jpg'', ''https://x/a.jpg''] x
            < first_index [''https://x/a.jpg'', ''b.jpg'', ''https://x/a.jpg''] y)
     [''https://x/a.jpg'', ''b.jpg'']"
proof -
  let ?doc = "[\<lparr>el_name = ''div'', el_attrs = [''id'' \<mapsto> ''Product-Slider''],
            el_imgs = [[''src'' \<mapsto> ''//x/a.jpg?w=1''], [''srcset'' \<mapsto> ''b.jpg 10w''],
                       [''src'' \<mapsto> ''//x/a.jpg?w=2'']]\<rparr>]"
  have h: "snd (process_html (\<lambda>n u. Inl RequestException) (\<lambda>p. True)
          \<lparr>w_log = [], w_requests = [], w_files = []\<rparr> ?doc ''page'' False ''out'')
     = Inr [''https://x/a.jpg'', ''b.jpg'']"
    by code_simp
  have k: "slider_keys ?doc = [''https://x/a.jpg'', ''b.jpg'', ''https://x/a.jpg'']"
    by code_simp
  from h resolver_keys_distinct_first_seen
    [where html = ?doc and net = "\<lambda>n u. Inl RequestException" and writable = "\<lambda>p. True"
       and w = "\<lparr>w_log = [], w_requests = [], w_files = []\<rparr>" and page_url = "''page''"
       and download = False and download_dir = "''out''"
       and bases = "[''https://x/a.jpg'', ''b.jpg'']"]
  have r: "distinct [''https://x/a.jpg'', ''b.jpg''] \<and>
      sorted_wrt (\<lambda>x y. first_index (slider_keys ?doc) x < first_index (slider_keys ?doc) y)
        [''https://x/a.jpg'', ''b.jpg'']"
    by blast
  with h k show ?thesis by simp
qed

end
